theory Spec2Isabelle
  imports Complex_Main "HOL-Library.Multiset"
begin

section \<open>Shard consolidation (cc_pseudo_crawl/finalise.py)\<close>

datatype py_error =
  KeyError | TypeError | IndexError | ValueError | AttributeError
  | AssertionError | SystemExit | UnboundLocalError

text \<open>
  A dataset is a list of rows. The column \<open>id\<close> is written \<open>id'\<close>. Its type is a
  parameter: \<open>nat option\<close> in a shard as loaded (a shard may or may not carry ids), \<open>nat\<close>
  once \<open>assign_id\<close> has run. \<open>fetch_time\<close> is any linearly ordered type.
\<close>

record ('i, 't) row =
  url :: string
  id' :: 'i
  fetch_time :: 't
  external_urls :: "string list"
  external_ids :: "nat list"

record args =
  dataset :: string
  datasets_to_concatenate :: "string list"

text \<open>\<open>s.split(sep)\<close> for a one-character separator: the pieces between separators; never
  the empty list.\<close>

fun py_split :: "char \<Rightarrow> string \<Rightarrow> string list" where
  "py_split sep [] = [[]]"
| "py_split sep (c # cs) =
     (if c = sep then [] # py_split sep cs
      else (case py_split sep cs of
              [] \<Rightarrow> [[c]]
            | p # ps \<Rightarrow> (c # p) # ps))"

definition split_comma :: "string \<Rightarrow> string list" where
  "split_comma s = py_split CHR '','' s"

text \<open>
  \<open>get_args\<close>: both options are required (argparse exits when one is missing, here
  \<open>None\<close>); then the assertion.
\<close>

definition get_args :: "string option \<Rightarrow> string option \<Rightarrow> py_error + args" where
  "get_args dataset_opt concat_opt =
     (case dataset_opt of
        None \<Rightarrow> Inl SystemExit
      | Some d \<Rightarrow>
          (case concat_opt of
             None \<Rightarrow> Inl SystemExit
           | Some s \<Rightarrow>
               (let a = \<lparr>dataset = d, datasets_to_concatenate = split_comma s\<rparr>
                in if dataset a \<in> set (datasets_to_concatenate a)
                   then Inl AssertionError
                   else Inr a)))"

text \<open>
  Python's \<open>max(a, b)\<close> on two tuples: \<open>b\<close> only when \<open>b\<close> is strictly greater in the
  lexicographic order, else \<open>a\<close>.
\<close>

definition tuple_less :: "('t::linorder) \<times> nat \<Rightarrow> 't \<times> nat \<Rightarrow> bool" where
  "tuple_less a b = (fst a < fst b \<or> (fst a = fst b \<and> snd a < snd b))"

definition py_max :: "('t::linorder) \<times> nat \<Rightarrow> 't \<times> nat \<Rightarrow> 't \<times> nat" where
  "py_max a b = (if tuple_less a b then b else a)"

type_synonym 't url_index = "string \<rightharpoonup> nat \<times> 't"

text \<open>One iteration of the first loop of \<open>compute_external_ids_\<close>.\<close>

definition index_step :: "('t::linorder) url_index \<Rightarrow> (nat, 't) row \<Rightarrow> 't url_index" where
  "index_step url_to_id_and_timestamp data =
     (case url_to_id_and_timestamp (url data) of
        Some (old_id, old_time_stamp) \<Rightarrow>
          (case py_max (fetch_time data, id' data) (old_time_stamp, old_id) of
             (new_timestamp, new_id) \<Rightarrow>
               url_to_id_and_timestamp(url data \<mapsto> (new_id, new_timestamp)))
      | None \<Rightarrow> url_to_id_and_timestamp(url data \<mapsto> (id' data, fetch_time data)))"

definition build_index :: "(nat, 't::linorder) row list \<Rightarrow> 't url_index" where
  "build_index ds = foldl index_step Map.empty ds"

text \<open>One iteration of the second loop: the list comprehension.\<close>

definition resolve :: "'t url_index \<Rightarrow> (nat, 't) row \<Rightarrow> (nat, 't) row" where
  "resolve url_to_id_and_timestamp data =
     data\<lparr>external_ids :=
       map (\<lambda>external_url. fst (the (url_to_id_and_timestamp external_url)))
         (filter (\<lambda>external_url. url_to_id_and_timestamp external_url \<noteq> None)
            (external_urls data))\<rparr>"

definition compute_external_ids' :: "(nat, 't::linorder) row list \<Rightarrow> (nat, 't) row list" where
  "compute_external_ids' ds = map (resolve (build_index ds)) ds"

text \<open>\<open>assign_id\<close>: the batch's \<open>id\<close> column becomes the list of indices.\<close>

definition set_id :: "('i, 't) row \<Rightarrow> nat \<Rightarrow> (nat, 't) row" where
  "set_id r i = \<lparr>url = url r, id' = i, fetch_time = fetch_time r,
                 external_urls = external_urls r, external_ids = external_ids r\<rparr>"

definition assign_id :: "('i, 't) row list \<Rightarrow> nat list \<Rightarrow> (nat, 't) row list" where
  "assign_id batch indices = map (\<lambda>(r, i). set_id r i) (zip batch indices)"

text \<open>
  \<open>ds.map(f, batched=True, with_indices=True)\<close>: the dataset is cut into batches of
  \<open>batch_size\<close> rows (the whole dataset when it is 0), and \<open>f\<close> gets each batch with the
  positions of its rows in the whole dataset.
\<close>

function map_batched ::
  "nat \<Rightarrow> (('i, 't) row list \<Rightarrow> nat list \<Rightarrow> (nat, 't) row list) \<Rightarrow> nat \<Rightarrow> ('i, 't) row list
   \<Rightarrow> (nat, 't) row list" where
  "map_batched batch_size f offset ds =
     (if ds = [] then []
      else if batch_size = 0 then f ds [offset ..< offset + length ds]
      else f (take batch_size ds) [offset ..< offset + length (take batch_size ds)]
           @ map_batched batch_size f (offset + batch_size) (drop batch_size ds))"
  by pat_completeness auto
termination
  by (relation "measure (\<lambda>(b, f, off, ds). length ds)") auto

declare map_batched.simps [simp del]

definition default_batch_size :: nat where
  "default_batch_size = 1000"

text \<open>
  \<open>main\<close>: \<open>load_dataset\<close> is the hub, a parameter. The result is what is pushed, and
  under which name.
\<close>

definition main ::
  "(string \<Rightarrow> ('i, 't::linorder) row list) \<Rightarrow> string option \<Rightarrow> string option
   \<Rightarrow> py_error + (string \<times> (nat, 't) row list)" where
  "main load_dataset dataset_opt concat_opt =
     (case get_args dataset_opt concat_opt of
        Inl e \<Rightarrow> Inl e
      | Inr a \<Rightarrow>
          (let datasets = map load_dataset (datasets_to_concatenate a);
               ds = concat datasets;
               ds = map_batched default_batch_size assign_id 0 ds;
               ds = compute_external_ids' ds
           in Inr (dataset a, ds)))"

text \<open>
  The entry \<open>e = (id, fetch_time)\<close> is canonical for \<open>u\<close>: it is that of a row with url
  \<open>u\<close> whose \<open>(fetch_time, id)\<close> no row with url \<open>u\<close> exceeds.
\<close>

definition is_canonical :: "(nat, 't::linorder) row list \<Rightarrow> string \<Rightarrow> nat \<times> 't \<Rightarrow> bool" where
  "is_canonical ds u e =
     (\<exists>c \<in> set ds. url c = u \<and> id' c = fst e \<and> fetch_time c = snd e \<and>
        (\<forall>r \<in> set ds. url r = u \<longrightarrow> \<not> tuple_less (fetch_time c, id' c) (fetch_time r, id' r)))"

text \<open>The index that \<open>main\<close> builds from the shards.\<close>

definition main_index :: "('i, 't::linorder) row list list \<Rightarrow> 't url_index" where
  "main_index shards = build_index (map_batched default_batch_size assign_id 0 (concat shards))"


text \<open>The rows of the scenario, and small shards used as concrete inputs.\<close>

definition row_A :: "(nat, int) row" where
  "row_A = \<lparr>url = ''u1'', id' = 0, fetch_time = 10, external_urls = [], external_ids = []\<rparr>"

definition row_B :: "(nat, int) row" where
  "row_B = \<lparr>url = ''u1'', id' = 1, fetch_time = 20, external_urls = [], external_ids = []\<rparr>"

definition row_C :: "(nat, int) row" where
  "row_C = \<lparr>url = ''u2'', id' = 2, fetch_time = 5, external_urls = [''u1''], external_ids = []\<rparr>"

definition shard_early :: "(nat option, int) row list" where
  "shard_early = [\<lparr>url = ''u1'', id' = None, fetch_time = 10, external_urls = [], external_ids = []\<rparr>]"

definition shard_late :: "(nat option, int) row list" where
  "shard_late = [\<lparr>url = ''u1'', id' = None, fetch_time = 20, external_urls = [], external_ids = []\<rparr>]"

definition hub_with_ids :: "string \<Rightarrow> (nat option, int) row list" where
  "hub_with_ids name =
     [\<lparr>url = ''u1'', id' = Some 7, fetch_time = 10, external_urls = [''u1''], external_ids = []\<rparr>,
      \<lparr>url = ''u2'', id' = Some 3, fetch_time = 20, external_urls = [''u1''], external_ids = []\<rparr>]"


section \<open>Filtering visualization (ac_dc/visualization/visualization.py)\<close>

text \<open>
  The script is run from top to bottom at every interaction: \<open>open_data\<close>, then
  \<open>filtering_of_docs\<close>, then \<open>analyse_personal_doc\<close>. What is drawn and not kept (titles,
  histograms, tables, download buttons) and the filtering of words are left out; what the
  user sets in the sidebar is an input.
\<close>

subsection \<open>Data\<close>

text \<open>
  A cell of a statistics column is a number, or (the precomputed repetitions ratios) a dict
  from the repetition length, a string, to a number. Numbers are exact rationals. A document
  is a row: its text, its word statistics if it has any, and its statistics by column name.
  A statistic a row does not have is \<open>None\<close>: the NaN that pandas puts there, which fails
  every comparison.
\<close>

datatype cell = Num rat | Dict "(string \<times> rat) list"

record word_stat =
  len_word :: nat
  incorrect_substring :: bool
  word :: string

record doc =
  doc_text :: string
  doc_words :: "word_stat list option"
  stats :: "string \<rightharpoonup> cell"

type_synonym dataframe = "doc list"

text \<open>A key is the tuple \<open>(name, cutoff, max_cutoff)\<close>, with the repetition length as fourth
  component for the repetitions ratio.\<close>

type_synonym key = "string \<times> rat \<times> bool \<times> string option"

text \<open>
  The object and the locals of \<open>set_sliders\<close>. \<open>docs\<close> and \<open>docs_checkpoint\<close> are references
  into a store of data frames, so that two names of one frame see each other's writes.
\<close>

record state =
  frames :: "nat \<Rightarrow> dataframe"
  docs :: nat
  docs_checkpoint :: nat
  self_words :: "word_stat list option"
  self_keys :: "key list"
  keys :: "key list"
  conds :: "(string \<times> bool list list) list"
  captions :: "(key \<times> rat) list"

text \<open>What the user has set in the sidebar in this run of the script.\<close>

record widgets =
  cutoff_min_number_words :: rat
  cutoff_max_number_words :: rat
  selected_repetitions_length :: "string option"
  cutoff_repetitions_ratio :: rat
  cutoff_special_characters_ratio :: rat
  stopwords_file :: "string option"
  cutoff_stopwords_ratio :: rat
  flagged_words_file :: "string option"
  cutoff_flagged_words_ratio :: rat
  cutoff_lang_id_score :: rat
  cutoff_perplexity_score :: rat
  display_discarded_documents_by_filter :: bool

text \<open>
  The functions of \<open>filtering.py\<close> and the loaded parameters, which this file only calls:
  they are parameters here, with the tokenizer, models and per-language settings fixed
  inside them.
\<close>

record config =
  lang_dataset_id :: string
  stopwords :: "string set"
  flagged_words :: "string set"
  get_words_from_document :: "string \<Rightarrow> string list"
  compute_repetitions_ratio :: "string \<Rightarrow> nat \<Rightarrow> rat"
  compute_special_characters_ratio :: "string \<Rightarrow> rat"
  compute_stopwords_ratio :: "string \<Rightarrow> string set \<Rightarrow> rat"
  compute_flagged_words_ratio :: "string \<Rightarrow> string set \<Rightarrow> rat"
  compute_lang_id_pred_score :: "string \<Rightarrow> string \<times> rat"
  compute_perplexity_score :: "string \<Rightarrow> rat"

definition err_bind :: "py_error + 'a \<Rightarrow> ('a \<Rightarrow> py_error + 'b) \<Rightarrow> py_error + 'b" where
  "err_bind m f = (case m of Inl e \<Rightarrow> Inl e | Inr x \<Rightarrow> f x)"

text \<open>A loop over the rows that writes each row it visits; the first error ends it.\<close>

fun for_each_row :: "(doc \<Rightarrow> py_error + doc) \<Rightarrow> dataframe \<Rightarrow> py_error + dataframe" where
  "for_each_row f [] = Inr []"
| "for_each_row f (d # ds) =
     (case f d of
        Inl e \<Rightarrow> Inl e
      | Inr d' \<Rightarrow> (case for_each_row f ds of Inl e \<Rightarrow> Inl e | Inr ds' \<Rightarrow> Inr (d' # ds')))"

subsection \<open>\<open>open_data\<close>\<close>





subsection \<open>Columns and conditions\<close>

definition in_columns :: "string \<Rightarrow> dataframe \<Rightarrow> bool" where
  "in_columns c df = list_ex (\<lambda>d. stats d c \<noteq> None) df"

definition column :: "string \<Rightarrow> dataframe \<Rightarrow> cell option list" where
  "column c df = map (\<lambda>d. stats d c) df"

definition set_cell :: "string \<Rightarrow> cell option \<Rightarrow> doc \<Rightarrow> doc" where
  "set_cell c v d = d\<lparr>stats := (stats d)(c := v)\<rparr>"

text \<open>\<open>df[c] = series\<close>: by position; a row the series does not reach gets NaN.\<close>

fun set_column :: "string \<Rightarrow> cell option list \<Rightarrow> dataframe \<Rightarrow> dataframe" where
  "set_column c col [] = []"
| "set_column c [] (d # ds) = set_cell c None d # set_column c [] ds"
| "set_column c (v # vs) (d # ds) = set_cell c v d # set_column c vs ds"

text \<open>A write to the frame that \<open>self.docs\<close> refers to.\<close>

definition write_docs :: "dataframe \<Rightarrow> state \<Rightarrow> state" where
  "write_docs df s = s\<lparr>frames := (frames s)(docs s := df)\<rparr>"

text \<open>\<open>self.docs[c] = self.docs_checkpoint[c]\<close>.\<close>

definition restore_column :: "string \<Rightarrow> state \<Rightarrow> state" where
  "restore_column c s =
     write_docs (set_column c (column c (frames s (docs_checkpoint s))) (frames s (docs s))) s"

text \<open>One cell against the cutoff: \<open><=\<close> for a max cutoff, \<open>>=\<close> else; a dict cannot be
  compared with a number.\<close>

fun cmp_cutoff :: "bool \<Rightarrow> rat \<Rightarrow> cell option \<Rightarrow> py_error + bool" where
  "cmp_cutoff max_cutoff cutoff None = Inr False"
| "cmp_cutoff max_cutoff cutoff (Some (Num v)) =
     Inr (if max_cutoff then v \<le> cutoff else v \<ge> cutoff)"
| "cmp_cutoff max_cutoff cutoff (Some (Dict kv)) = Inl TypeError"

fun sequence_err :: "('e + 'a) list \<Rightarrow> 'e + 'a list" where
  "sequence_err [] = Inr []"
| "sequence_err (m # ms) =
     (case m of
        Inl e \<Rightarrow> Inl e
      | Inr x \<Rightarrow> (case sequence_err ms of Inl e \<Rightarrow> Inl e | Inr xs \<Rightarrow> Inr (x # xs)))"

definition get_cond :: "string \<Rightarrow> rat \<Rightarrow> bool \<Rightarrow> dataframe \<Rightarrow> py_error + bool list" where
  "get_cond key cutoff max_cutoff df =
     sequence_err (map (cmp_cutoff max_cutoff cutoff) (column key df))"

text \<open>The number in the caption of \<open>print_discared_by_cond\<close>, before it is formatted.\<close>

definition print_discared_by_cond :: "bool list \<Rightarrow> rat" where
  "print_discared_by_cond cond =
     (of_nat (length cond) - of_nat (length (filter id cond))) / of_nat (length cond) * 100"

text \<open>
  The steps every expander repeats: \<open>keys.append(new_key)\<close>, \<open>cond = get_cond(\<dots>)\<close>,
  \<open>print_discared_by_cond(cond)\<close>. (The histogram is drawn and nothing of it is kept.)
\<close>

definition add_rule :: "key \<Rightarrow> state \<Rightarrow> py_error + (bool list \<times> state)" where
  "add_rule new_key s =
     (case new_key of (name, cutoff, max_cutoff, extra) \<Rightarrow>
        err_bind (get_cond name cutoff max_cutoff (frames s (docs s))) (\<lambda>cond.
          Inr (cond, s\<lparr>keys := keys s @ [new_key],
                       captions := captions s @ [(new_key, print_discared_by_cond cond)]\<rparr>)))"

definition set_conds :: "string \<Rightarrow> bool list list \<Rightarrow> state \<Rightarrow> state" where
  "set_conds name cs s = s\<lparr>conds := conds s @ [(name, cs)]\<rparr>"

subsection \<open>The expanders of \<open>set_sliders\<close>\<close>

definition number_words_section ::
  "(string \<Rightarrow> bool) \<Rightarrow> widgets \<Rightarrow> state \<Rightarrow> py_error + state" where
  "number_words_section columns w s =
     (if columns ''number_words'' then
        err_bind (add_rule (''number_words'', cutoff_min_number_words w, False, None) s)
          (\<lambda>(cond_1, s).
        err_bind (add_rule (''number_words'', cutoff_max_number_words w, True, None) s)
          (\<lambda>(cond_2, s).
        Inr (set_conds ''number_words'' [cond_1, cond_2] s)))
      else Inr s)"

text \<open>\<open>.iloc[0].keys()\<close> of the column: the keys of the first row's dict.\<close>

fun first_keys :: "cell option list \<Rightarrow> py_error + string list" where
  "first_keys [] = Inl IndexError"
| "first_keys (Some (Dict kv) # _) = Inr (map fst kv)"
| "first_keys (_ # _) = Inl AttributeError"

fun index_of :: "'a \<Rightarrow> 'a list \<Rightarrow> nat" where
  "index_of x [] = 0"
| "index_of x (y # ys) = (if x = y then 0 else Suc (index_of x ys))"

text \<open>
  The select box: the user's choice when it is one of the options, else the option at the
  default index; nothing when there is no option.
\<close>

definition selectbox :: "string list \<Rightarrow> nat \<Rightarrow> string option \<Rightarrow> string option" where
  "selectbox options default_index choice =
     (case choice of
        Some c \<Rightarrow> if c \<in> set options then Some c
                  else if options = [] then None else Some (options ! default_index)
      | None \<Rightarrow> if options = [] then None else Some (options ! default_index))"

text \<open>The body of the loop over \<open>i\<close>: the row's cell becomes \<open>cell[repetitions_length]\<close>.\<close>

definition select_length :: "string option \<Rightarrow> doc \<Rightarrow> py_error + doc" where
  "select_length repetitions_length d =
     (case stats d ''repetitions_ratio'' of
        Some (Dict kv) \<Rightarrow>
          (case repetitions_length of
             None \<Rightarrow> Inl KeyError
           | Some n \<Rightarrow>
               (case map_of kv n of
                  None \<Rightarrow> Inl KeyError
                | Some v \<Rightarrow> Inr (set_cell ''repetitions_ratio'' (Some (Num v)) d)))
      | _ \<Rightarrow> Inl TypeError)"

definition repetitions_ratio_section ::
  "(string \<Rightarrow> bool) \<Rightarrow> widgets \<Rightarrow> state \<Rightarrow> py_error + state" where
  "repetitions_ratio_section columns w s =
     (if columns ''repetitions_ratio'' then
        err_bind (first_keys (column ''repetitions_ratio'' (frames s (docs s))))
          (\<lambda>val_repetitions_lengths.
        (let default_index =
               (if ''10'' \<in> set val_repetitions_lengths
                then index_of ''10'' val_repetitions_lengths else 0);
             repetitions_length =
               selectbox val_repetitions_lengths default_index (selected_repetitions_length w);
             s = restore_column ''repetitions_ratio'' s
         in err_bind (for_each_row (select_length repetitions_length) (frames s (docs s)))
              (\<lambda>df.
            err_bind (add_rule (''repetitions_ratio'', cutoff_repetitions_ratio w, True,
                                repetitions_length) (write_docs df s))
              (\<lambda>(cond, s).
            Inr (set_conds ''repetitions_ratio'' [cond] s)))))
      else Inr s)"

definition special_characters_ratio_section ::
  "(string \<Rightarrow> bool) \<Rightarrow> widgets \<Rightarrow> state \<Rightarrow> py_error + state" where
  "special_characters_ratio_section columns w s =
     (if columns ''special_characters_ratio'' then
        err_bind (add_rule (''special_characters_ratio'', cutoff_special_characters_ratio w,
                            True, None) s)
          (\<lambda>(cond, s).
        Inr (set_conds ''special_characters_ratio'' [cond] s))
      else Inr s)"

text \<open>
  The recomputation after an upload: the column is restored from the checkpoint, then every
  row's cell is computed from the row's text and the uploaded lexicon.
\<close>

definition recompute_column :: "string \<Rightarrow> (string \<Rightarrow> rat) \<Rightarrow> state \<Rightarrow> state" where
  "recompute_column c f s =
     (let s = restore_column c s
      in write_docs (map (\<lambda>d. set_cell c (Some (Num (f (doc_text d)))) d) (frames s (docs s))) s)"

definition newline :: char where
  "newline = CHR 0x0A"

definition stopwords_ratio_section ::
  "config \<Rightarrow> (string \<Rightarrow> bool) \<Rightarrow> widgets \<Rightarrow> state \<Rightarrow> py_error + state" where
  "stopwords_ratio_section cfg columns w s =
     (if columns ''stopwords_ratio'' then
        (let s = (case stopwords_file w of
                    None \<Rightarrow> s
                  | Some new_stopwords \<Rightarrow>
                      (let new_stopwords = set (py_split newline new_stopwords)
                       in recompute_column ''stopwords_ratio''
                            (\<lambda>text. compute_stopwords_ratio cfg text new_stopwords) s))
         in err_bind (add_rule (''stopwords_ratio'', cutoff_stopwords_ratio w, False, None) s)
              (\<lambda>(cond, s).
            Inr (set_conds ''stopwords_ratio'' [cond] s)))
      else Inr s)"

definition flagged_words_ratio_section ::
  "config \<Rightarrow> (string \<Rightarrow> bool) \<Rightarrow> widgets \<Rightarrow> state \<Rightarrow> py_error + state" where
  "flagged_words_ratio_section cfg columns w s =
     (if columns ''flagged_words_ratio'' then
        (let s = (case flagged_words_file w of
                    None \<Rightarrow> s
                  | Some new_flagged_words \<Rightarrow>
                      (let new_flagged_words = set (py_split newline new_flagged_words)
                       in recompute_column ''flagged_words_ratio''
                            (\<lambda>text. compute_flagged_words_ratio cfg text new_flagged_words) s))
         in err_bind (add_rule (''flagged_words_ratio'', cutoff_flagged_words_ratio w, True,
                                None) s)
              (\<lambda>(cond, s).
            Inr (set_conds ''flagged_words_ratio'' [cond] s)))
      else Inr s)"

definition lang_id_score_section ::
  "(string \<Rightarrow> bool) \<Rightarrow> widgets \<Rightarrow> state \<Rightarrow> py_error + state" where
  "lang_id_score_section columns w s =
     (if columns ''lang_id_score'' then
        err_bind (add_rule (''lang_id_score'', cutoff_lang_id_score w, False, None) s)
          (\<lambda>(cond, s).
        Inr (set_conds ''lang_id_score'' [cond] s))
      else Inr s)"

definition perplexity_score_section ::
  "(string \<Rightarrow> bool) \<Rightarrow> widgets \<Rightarrow> state \<Rightarrow> py_error + state" where
  "perplexity_score_section columns w s =
     (if columns ''perplexity_score'' then
        err_bind (add_rule (''perplexity_score'', cutoff_perplexity_score w, True, None) s)
          (\<lambda>(cond, s).
        Inr (set_conds ''perplexity_score'' [cond] s))
      else Inr s)"

text \<open>
  \<open>set_sliders\<close>: \<open>columns\<close> is read once, at the start; \<open>keys\<close> and \<open>conds\<close> start empty.
\<close>

definition set_sliders :: "config \<Rightarrow> widgets \<Rightarrow> state \<Rightarrow> py_error + state" where
  "set_sliders cfg w s =
     (let columns = (\<lambda>c. in_columns c (frames s (docs s)));
          s = s\<lparr>keys := [], conds := [], captions := []\<rparr>
      in err_bind (number_words_section columns w s) (\<lambda>s.
         err_bind (repetitions_ratio_section columns w s) (\<lambda>s.
         err_bind (special_characters_ratio_section columns w s) (\<lambda>s.
         err_bind (stopwords_ratio_section cfg columns w s) (\<lambda>s.
         err_bind (flagged_words_ratio_section cfg columns w s) (\<lambda>s.
         err_bind (lang_id_score_section columns w s) (\<lambda>s.
         perplexity_score_section columns w s)))))))"

subsection \<open>\<open>filtering_of_docs\<close>\<close>

text \<open>\<open>np.all(conds, axis=0)\<close> of a list of conditions that is not empty: row by row.\<close>

definition np_all_axis0 :: "bool list list \<Rightarrow> bool list" where
  "np_all_axis0 cs = map (\<lambda>i. list_all (\<lambda>c. c ! i) cs) [0 ..< length (hd cs)]"

text \<open>\<open>df.loc[cond]\<close>: the rows where the condition holds.\<close>

definition loc :: "dataframe \<Rightarrow> bool list \<Rightarrow> dataframe" where
  "loc df cond = map fst (filter snd (zip df cond))"

record filtering =
  after :: state
  mask :: "bool list"
  discarded :: dataframe
  discarded_by_filter :: "(string \<times> dataframe) list option"
  retained :: dataframe

text \<open>
  \<open>filtering_of_docs\<close>. With no condition at all, \<open>np.all\<close> gives one boolean and not one
  per row, and \<open>.loc\<close> raises on it.
\<close>

definition filtering_of_docs :: "config \<Rightarrow> widgets \<Rightarrow> state \<Rightarrow> py_error + filtering" where
  "filtering_of_docs cfg w s =
     err_bind (set_sliders cfg w s) (\<lambda>s.
       (let s = s\<lparr>self_keys := keys s\<rparr>;
            all_conds = concat (map snd (conds s));
            df = frames s (docs s)
        in if all_conds = [] then Inl KeyError
           else
             (let all_conds = np_all_axis0 all_conds
              in Inr \<lparr>after = s,
                      mask = all_conds,
                      discarded = loc df (map Not all_conds),
                      discarded_by_filter =
                        (if display_discarded_documents_by_filter w
                         then Some (map (\<lambda>(name, cs). (name, loc df (map Not (np_all_axis0 cs))))
                                     (conds s))
                         else None),
                      retained = loc df all_conds\<rparr>)))"

subsection \<open>\<open>analyse_personal_doc\<close>\<close>

text \<open>\<open>round(x, 3)\<close> on an exact number: to the nearest thousandth, a tie to the even one.\<close>

definition round3 :: "rat \<Rightarrow> rat" where
  "round3 x =
     (let y = x * 1000; f = \<lfloor>y\<rfloor>; r = y - of_int f
      in of_int (if r < 1 / 2 then f
                 else if r > 1 / 2 then f + 1
                 else if even f then f else f + 1) / 1000)"

text \<open>\<open>int(s)\<close> for a string of decimal digits; anything else is a \<open>ValueError\<close> here.\<close>

definition digit_val :: "char \<Rightarrow> nat option" where
  "digit_val c =
     (let code = (of_char c :: nat)
      in if 48 \<le> code \<and> code \<le> 57 then Some (code - 48) else None)"

fun digits_val :: "nat \<Rightarrow> string \<Rightarrow> py_error + nat" where
  "digits_val acc [] = Inr acc"
| "digits_val acc (c # cs) =
     (case digit_val c of None \<Rightarrow> Inl ValueError | Some v \<Rightarrow> digits_val (10 * acc + v) cs)"

definition py_int :: "string \<Rightarrow> py_error + nat" where
  "py_int s = (if s = [] then Inl ValueError else digits_val 0 s)"

definition is_doc_discarded :: "key \<Rightarrow> rat \<Rightarrow> bool" where
  "is_doc_discarded key score =
     (case key of (name, cutoff, max_cutoff, extra) \<Rightarrow>
        if max_cutoff then score > cutoff else score < cutoff)"

text \<open>
  The local variables that the loop over \<open>self.keys\<close> reads in a later iteration than the
  one that binds them: \<open>is_discarded\<close>, and \<open>flagged_words_ratio\<close>, unbound (\<open>None\<close>) until
  the branch of the flagged words has run.
\<close>

record probe =
  is_discarded_var :: bool
  flagged_words_ratio_var :: "rat option"

definition discard_if :: "bool \<Rightarrow> probe \<Rightarrow> probe" where
  "discard_if b p = (if b then p\<lparr>is_discarded_var := True\<rparr> else p)"

text \<open>The body of \<open>for key in self.keys\<close>.\<close>

definition probe_key :: "config \<Rightarrow> string \<Rightarrow> key \<Rightarrow> probe \<Rightarrow> py_error + probe" where
  "probe_key cfg personal_doc key p =
     (case key of (name, cutoff, max_cutoff, extra) \<Rightarrow>
        if name = ''number_words'' then
          (let words = get_words_from_document cfg personal_doc
           in Inr (discard_if (is_doc_discarded key (of_nat (length words))) p))
        else if name = ''repetitions_ratio'' then
          (case extra of
             None \<Rightarrow> Inl IndexError
           | Some n \<Rightarrow>
               err_bind (py_int n) (\<lambda>n.
                 (let repetitions_ratio = round3 (compute_repetitions_ratio cfg personal_doc n)
                  in Inr (discard_if (is_doc_discarded key repetitions_ratio) p))))
        else if name = ''special_characters_ratio'' then
          (let special_characters_ratio =
                 round3 (compute_special_characters_ratio cfg personal_doc)
           in Inr (discard_if (is_doc_discarded key special_characters_ratio) p))
        else if name = ''stopwords_ratio'' then
          (let stopwords_ratio =
                 round3 (compute_stopwords_ratio cfg personal_doc (stopwords cfg))
           in Inr (discard_if (is_doc_discarded key stopwords_ratio) p))
        else if name = ''flagged_words_ratio'' then
          (let flagged_words_ratio =
                 round3 (compute_flagged_words_ratio cfg personal_doc (flagged_words cfg));
               p = p\<lparr>flagged_words_ratio_var := Some flagged_words_ratio\<rparr>
           in Inr (discard_if (is_doc_discarded key flagged_words_ratio) p))
        else if name = ''lang_id_score'' then
          (case compute_lang_id_pred_score cfg personal_doc of
             (lang_pred_dataset_id, lang_id_score) \<Rightarrow>
               (let lang_id_score = round3 lang_id_score
                in case flagged_words_ratio_var p of
                     None \<Rightarrow> Inl UnboundLocalError
                   | Some flagged_words_ratio \<Rightarrow>
                       Inr (discard_if (is_doc_discarded key flagged_words_ratio
                                        \<or> lang_dataset_id cfg \<noteq> lang_pred_dataset_id) p)))
        else if name = ''perplexity_score'' then
          (let perplexity_score = round3 (compute_perplexity_score cfg personal_doc)
           in Inr (discard_if (is_doc_discarded key perplexity_score) p))
        else Inr p)"

fun probe_keys :: "config \<Rightarrow> string \<Rightarrow> key list \<Rightarrow> probe \<Rightarrow> py_error + probe" where
  "probe_keys cfg personal_doc [] p = Inr p"
| "probe_keys cfg personal_doc (key # ks) p =
     (case probe_key cfg personal_doc key p of
        Inl e \<Rightarrow> Inl e
      | Inr p \<Rightarrow> probe_keys cfg personal_doc ks p)"

text \<open>
  \<open>analyse_personal_doc\<close>: nothing is said about an empty text; else the verdict of the
  last line, \<open>True\<close> for "is discarded".
\<close>

definition analyse_personal_doc :: "config \<Rightarrow> state \<Rightarrow> string \<Rightarrow> py_error + bool option" where
  "analyse_personal_doc cfg s personal_doc =
     (if personal_doc = [] then Inr None
      else err_bind (probe_keys cfg personal_doc (self_keys s)
                       \<lparr>is_discarded_var = False, flagged_words_ratio_var = None\<rparr>)
             (\<lambda>p. Inr (Some (is_discarded_var p))))"

subsection \<open>What the conditions are compared with\<close>

text \<open>
  The test of one rule on one document, as the specification words it: with a max cutoff the
  value must be at most the threshold, with a min cutoff at least the threshold. A document
  without a number in that column has no value that could pass.
\<close>

definition rule_passes :: "key \<Rightarrow> doc \<Rightarrow> bool" where
  "rule_passes k d =
     (case k of (name, threshold, max_cutoff, extra) \<Rightarrow>
        (case stats d name of
           Some (Num v) \<Rightarrow> (if max_cutoff then v \<le> threshold else threshold \<le> v)
         | _ \<Rightarrow> False))"

text \<open>The number of documents of a frame that fail a rule taken alone.\<close>

definition failing :: "key \<Rightarrow> dataframe \<Rightarrow> nat" where
  "failing k df = length (filter (\<lambda>d. \<not> rule_passes k d) df)"

text \<open>A frame without one of its columns.\<close>

definition erase_col :: "string \<Rightarrow> dataframe \<Rightarrow> dataframe" where
  "erase_col c df = map (set_cell c None) df"

text \<open>
  The conditions and captions of a state are those of its keys on its frame of documents,
  and the keys are on the columns \<open>S\<close>.
\<close>

definition evaluated :: "string set \<Rightarrow> state \<Rightarrow> bool" where
  "evaluated S s =
     (fst ` set (keys s) \<subseteq> S
      \<and> concat (map snd (conds s)) = map (\<lambda>k. map (rule_passes k) (frames s (docs s))) (keys s)
      \<and> captions s
          = map (\<lambda>k. (k, print_discared_by_cond (map (rule_passes k) (frames s (docs s)))))
              (keys s))"

text \<open>
  Two states that differ at most in the column \<open>c\<close> of their frames and in the condition
  and the caption of the rules on \<open>c\<close>.
\<close>

definition agree_except :: "string \<Rightarrow> state \<Rightarrow> state \<Rightarrow> bool" where
  "agree_except c s s' =
     (keys s = keys s' \<and> docs s = docs s' \<and> docs_checkpoint s = docs_checkpoint s'
      \<and> (\<forall>a. erase_col c (frames s a) = erase_col c (frames s' a))
      \<and> filter (\<lambda>e. fst e \<noteq> c) (conds s) = filter (\<lambda>e. fst e \<noteq> c) (conds s')
      \<and> filter (\<lambda>e. fst (fst e) \<noteq> c) (captions s) = filter (\<lambda>e. fst (fst e) \<noteq> c) (captions s'))"

text \<open>
  The shape of what one expander does to the state: it may rewrite its own column \<open>X\<close> of
  the frames (\<open>rewritten\<close>); then it adds rules on \<open>X\<close> with their conditions and captions,
  computed on the frame as it is then (\<open>with_rules\<close>).
\<close>

definition rewritten :: "string \<Rightarrow> state \<Rightarrow> state \<Rightarrow> bool" where
  "rewritten X s s0 =
     (keys s0 = keys s \<and> conds s0 = conds s \<and> captions s0 = captions s
      \<and> docs s0 = docs s \<and> docs_checkpoint s0 = docs_checkpoint s
      \<and> self_keys s0 = self_keys s \<and> self_words s0 = self_words s
      \<and> (\<forall>a. erase_col X (frames s0 a) = erase_col X (frames s a)))"

definition with_rules :: "string \<Rightarrow> key list \<Rightarrow> state \<Rightarrow> state" where
  "with_rules X ks s =
     s\<lparr>keys := keys s @ ks,
       conds := conds s @ [(X, map (\<lambda>k. map (rule_passes k) (frames s (docs s))) ks)],
       captions := captions s
          @ map (\<lambda>k. (k, print_discared_by_cond (map (rule_passes k) (frames s (docs s))))) ks\<rparr>"

definition section_step :: "string \<Rightarrow> state \<Rightarrow> state \<Rightarrow> bool" where
  "section_step X s s' =
     (s' = s \<or> (\<exists>s0 ks. rewritten X s s0 \<and> (\<forall>k \<in> set ks. fst k = X) \<and> s' = with_rules X ks s0))"

subsection \<open>A small data set\<close>

text \<open>
  Two documents with their precomputed statistics, the state \<open>open_data\<close> makes of them, a
  setting of the sidebar (at least 10 and at most 500 words, language score at least 0.8,
  the other sliders where they discard nothing) and stand-ins for the functions of
  \<open>filtering.py\<close>.
\<close>

definition doc_short :: doc where
  "doc_short =
     \<lparr>doc_text = ''the the cat'', doc_words = None,
      stats = [''number_words'' \<mapsto> Num 3,
               ''repetitions_ratio'' \<mapsto> Dict [(''5'', 1 / 10), (''10'', 1 / 5)],
               ''stopwords_ratio'' \<mapsto> Num (1 / 2),
               ''flagged_words_ratio'' \<mapsto> Num 0,
               ''lang_id_score'' \<mapsto> Num (9 / 10)]\<rparr>"

definition doc_long :: doc where
  "doc_long =
     \<lparr>doc_text = ''a b c d e f g h i j k the'', doc_words = None,
      stats = [''number_words'' \<mapsto> Num 12,
               ''repetitions_ratio'' \<mapsto> Dict [(''5'', 3 / 10), (''10'', 2 / 5)],
               ''stopwords_ratio'' \<mapsto> Num (1 / 4),
               ''flagged_words_ratio'' \<mapsto> Num (1 / 10),
               ''lang_id_score'' \<mapsto> Num (19 / 20)]\<rparr>"

definition example_data :: "doc list" where
  "example_data = [doc_short, doc_long]"

definition example_state :: state where
  "example_state =
     \<lparr>frames = (\<lambda>a. [])(0 := example_data), docs = 0, docs_checkpoint = 0, self_words = None,
      self_keys = [], keys = [], conds = [], captions = []\<rparr>"

definition example_widgets :: widgets where
  "example_widgets =
     \<lparr>cutoff_min_number_words = 10, cutoff_max_number_words = 500,
      selected_repetitions_length = None, cutoff_repetitions_ratio = 1,
      cutoff_special_characters_ratio = 1,
      stopwords_file = None, cutoff_stopwords_ratio = 0,
      flagged_words_file = None, cutoff_flagged_words_ratio = 1,
      cutoff_lang_id_score = 4 / 5, cutoff_perplexity_score = 1000,
      display_discarded_documents_by_filter = False\<rparr>"

definition ratio_in :: "string \<Rightarrow> string set \<Rightarrow> rat" where
  "ratio_in text lexicon =
     of_nat (length (filter (\<lambda>x. x \<in> lexicon) (py_split CHR '' '' text)))
       / of_nat (length (py_split CHR '' '' text))"

definition example_config :: config where
  "example_config =
     \<lparr>lang_dataset_id = ''en'', stopwords = {''the''}, flagged_words = {},
      get_words_from_document = py_split CHR '' '',
      compute_repetitions_ratio = (\<lambda>text n. 0),
      compute_special_characters_ratio = (\<lambda>text. 0),
      compute_stopwords_ratio = ratio_in,
      compute_flagged_words_ratio = ratio_in,
      compute_lang_id_pred_score = (\<lambda>text. (''en'', 9 / 10)),
      compute_perplexity_score = (\<lambda>text. 0)\<rparr>"

text \<open>The result of the run on the small data set (the run succeeds, as is shown below).\<close>

definition example_result :: filtering where
  "example_result = projr (filtering_of_docs example_config example_widgets example_state)"

text \<open>
  The state \<open>s'\<close> differs from \<open>s\<close> at most in the column \<open>c\<close> and in what is recorded for the
  rules on \<open>c\<close>: same keys; in every frame the same rows with the same text and the same
  cell in every other column; the same conditions for every other column; the same caption
  for every rule on another column.
\<close>

definition unchanged_outside :: "string \<Rightarrow> state \<Rightarrow> state \<Rightarrow> bool" where
  "unchanged_outside c s s' =
     (keys s' = keys s \<and> self_keys s' = self_keys s
      \<and> docs s' = docs s \<and> docs_checkpoint s' = docs_checkpoint s
      \<and> (\<forall>a. length (frames s' a) = length (frames s a))
      \<and> (\<forall>a. \<forall>i < length (frames s a).
            doc_text (frames s' a ! i) = doc_text (frames s a ! i)
          \<and> (\<forall>X. X \<noteq> c \<longrightarrow> stats (frames s' a ! i) X = stats (frames s a ! i) X))
      \<and> (\<forall>X. X \<noteq> c \<longrightarrow> map_of (conds s') X = map_of (conds s) X)
      \<and> (\<forall>k. fst k \<noteq> c \<longrightarrow> map_of (captions s') k = map_of (captions s) k))"

text \<open>Every document of the frame of documents has in column \<open>c\<close> the value of \<open>f\<close> on its
  text.\<close>

definition recomputed :: "string \<Rightarrow> (string \<Rightarrow> rat) \<Rightarrow> state \<Rightarrow> bool" where
  "recomputed c f s = (\<forall>d \<in> set (frames s (docs s)). stats d c = Some (Num (f (doc_text d))))"

text \<open>The runs on the small data set after an upload of the stop words \<open>the\<close>, and after an
  upload of the flagged words \<open>cat\<close>.\<close>

definition example_result_stopwords :: filtering where
  "example_result_stopwords =
     projr (filtering_of_docs example_config (example_widgets\<lparr>stopwords_file := Some ''the''\<rparr>)
              example_state)"

definition example_result_flagged_words :: filtering where
  "example_result_flagged_words =
     projr (filtering_of_docs example_config (example_widgets\<lparr>flagged_words_file := Some ''cat''\<rparr>)
              example_state)"

text \<open>
  A state whose rules are the one on the flagged words ratio (at most 1) and the one on the
  language identification score (at least 0.8), and one whose only rule is the latter.
\<close>

definition probe_state :: state where
  "probe_state =
     example_state\<lparr>self_keys := [(''flagged_words_ratio'', 1, True, None),
                                (''lang_id_score'', 4 / 5, False, None)]\<rparr>"

definition probe_state_lang_only :: state where
  "probe_state_lang_only = example_state\<lparr>self_keys := [(''lang_id_score'', 4 / 5, False, None)]\<rparr>"

text \<open>A configuration where every word is flagged and the language score is 0.1.\<close>

definition low_score_config :: config where
  "low_score_config =
     example_config\<lparr>flagged_words := {''the'', ''cat''},
                    compute_lang_id_pred_score := (\<lambda>text. (''en'', 1 / 10))\<rparr>"


section \<open>Properties of the shard consolidation\<close>

text \<open>What \<open>py_split\<close> returns: pieces without the separator that, each put after a
  separator, give back the string after a separator.\<close>

lemma py_split_not_Nil: "py_split sep s \<noteq> []"
  by (induction s) (auto split: list.splits)

lemma py_split_pieces: "p \<in> set (py_split sep s) \<Longrightarrow> sep \<notin> set p"
  by (induction s arbitrary: p) (auto split: list.splits if_splits)

lemma py_split_join: "concat (map ((#) sep) (py_split sep s)) = sep # s"
  by (induction s) (auto split: list.splits simp: py_split_not_Nil)

lemma assign_id_length: "length (assign_id b ix) = min (length b) (length ix)"
  by (simp add: assign_id_def)

lemma map_batched_assign_id_aux:
  "f = assign_id \<Longrightarrow> map_batched bs f off ds = assign_id ds [off ..< off + length ds]"
proof (induction bs f off ds rule: map_batched.induct)
  case (1 bs f off ds)
  note f = \<open>f = assign_id\<close>
  show ?case
  proof (cases "ds = [] \<or> bs = 0")
    case True
    then show ?thesis by (subst map_batched.simps) (auto simp: f assign_id_def)
  next
    case False
    then have ne: "ds \<noteq> []" and pos: "bs \<noteq> 0" by auto
    have ih: "map_batched bs f (off + bs) (drop bs ds)
              = assign_id (drop bs ds) [off + bs ..< off + bs + length (drop bs ds)]"
      using 1 ne pos by simp
    show ?thesis
    proof (cases "bs \<le> length ds")
      case True
      have "[off ..< off + length ds] = [off ..< off + bs] @ [off + bs ..< off + length ds]"
        using True upt_add_eq_append[of off "off + bs" "length ds - bs"] by simp
      then have "assign_id ds [off ..< off + length ds]
            = assign_id (take bs ds @ drop bs ds) ([off ..< off + bs] @ [off + bs ..< off + length ds])"
        by simp
      also have "\<dots> = assign_id (take bs ds) [off ..< off + bs] @ assign_id (drop bs ds) [off + bs ..< off + length ds]"
        unfolding assign_id_def using True by (subst zip_append) (simp_all add: min_def)
      finally show ?thesis
        using ne pos True ih by (subst map_batched.simps) (simp add: min_def f)
    next
      case False
      then show ?thesis using ne pos ih
        by (subst map_batched.simps) (simp add: assign_id_def f)
    qed
  qed
qed

lemma map_batched_assign_id:
  "map_batched bs assign_id off ds = assign_id ds [off ..< off + length ds]"
  by (rule map_batched_assign_id_aux) simp

lemma py_max_commute: "py_max a b = py_max b a"
  by (cases a; cases b) (auto simp: py_max_def tuple_less_def)

lemma py_max_assoc: "py_max a (py_max b c) = py_max b (py_max a c)"
  by (cases a; cases b; cases c) (auto simp: py_max_def tuple_less_def)

lemma index_step_commute:
  "index_step (index_step m a) b = index_step (index_step m b) a"
proof (cases "url a = url b")
  case False
  then show ?thesis
    by (auto simp: index_step_def fun_upd_twist split: option.splits prod.splits)
next
  case True
  show ?thesis
  proof (cases "m (url b)")
    case None
    then show ?thesis using True py_max_commute[of "(fetch_time a, id' a)" "(fetch_time b, id' b)"]
      by (auto simp: index_step_def split: option.splits prod.splits)
  next
    case (Some p)
    obtain i t where p: "p = (i, t)" by (cases p)
    show ?thesis using True Some p
      py_max_assoc[of "(fetch_time a, id' a)" "(fetch_time b, id' b)" "(t, i)"]
      by (auto simp: index_step_def split: option.splits prod.splits)
  qed
qed

lemma build_index_mset:
  "mset ds = mset ds' \<Longrightarrow> build_index ds = build_index ds'"
proof -
  assume a: "mset ds = mset ds'"
  have "fold (\<lambda>r m. index_step m r) ds = fold (\<lambda>r m. index_step m r) ds'"
    by (rule fold_multiset_equiv[OF _ a]) (auto simp: fun_eq_iff index_step_commute)
  then show ?thesis by (simp add: build_index_def foldl_conv_fold)
qed

lemma build_index_snoc: "build_index (ds @ [r]) = index_step (build_index ds) r"
  by (simp add: build_index_def)

lemma tuple_less_trans: "tuple_less a b \<Longrightarrow> tuple_less b c \<Longrightarrow> tuple_less a c"
  by (auto simp: tuple_less_def)

lemma tuple_less_irrefl: "\<not> tuple_less a a"
  by (simp add: tuple_less_def)

lemma tuple_less_total: "tuple_less a b \<or> a = b \<or> tuple_less b a"
  by (cases a; cases b) (auto simp: tuple_less_def)

lemma build_index_None: "build_index ds u = None \<longleftrightarrow> u \<notin> url ` set ds"
proof (induction ds rule: rev_induct)
  case Nil
  show ?case by (simp add: build_index_def)
next
  case (snoc r ds)
  show ?case unfolding build_index_snoc using snoc
    by (auto simp: index_step_def split: option.splits prod.splits)
qed

lemma build_index_Some:
  "build_index ds u = Some e \<Longrightarrow> is_canonical ds u e"
proof (induction ds arbitrary: e rule: rev_induct)
  case Nil
  then show ?case by (simp add: build_index_def)
next
  case (snoc r ds)
  show ?case
  proof (cases "url r = u")
    case False
    then have "build_index ds u = Some e"
      using snoc.prems unfolding build_index_snoc
      by (auto simp: index_step_def split: option.splits prod.splits)
    then have "is_canonical ds u e" by (rule snoc.IH)
    then show ?thesis using False by (auto simp: is_canonical_def)
  next
    case True
    show ?thesis
    proof (cases "build_index ds u")
      case None
      then have e: "e = (id' r, fetch_time r)"
        using snoc.prems True unfolding build_index_snoc
        by (auto simp: index_step_def)
      have "u \<notin> url ` set ds" using None by (simp add: build_index_None)
      then have "\<forall>x \<in> set ds. url x \<noteq> u" by auto
      then show ?thesis using True e unfolding is_canonical_def
        by (intro bexI[of _ r]) (auto simp: tuple_less_irrefl)
    next
      case (Some old)
      obtain oi ot where old: "old = (oi, ot)" by (cases old)
      have can: "is_canonical ds u (oi, ot)" using snoc.IH Some old by simp
      show ?thesis
      proof (cases "tuple_less (fetch_time r, id' r) (ot, oi)")
        case True
        then have e: "e = (oi, ot)"
          using snoc.prems \<open>url r = u\<close> Some old unfolding build_index_snoc
          by (auto simp: index_step_def py_max_def)
        show ?thesis using can True \<open>url r = u\<close>
          unfolding e is_canonical_def
          by (auto dest: tuple_less_trans simp: tuple_less_irrefl)
      next
        case False
        then have e: "e = (id' r, fetch_time r)"
          using snoc.prems \<open>url r = u\<close> Some old unfolding build_index_snoc
          by (auto simp: index_step_def py_max_def)
        have ge: "\<not> tuple_less (fetch_time r, id' r) (fetch_time x, id' x)"
          if "x \<in> set ds" "url x = u" for x
        proof
          assume l: "tuple_less (fetch_time r, id' r) (fetch_time x, id' x)"
          have c: "\<not> tuple_less (ot, oi) (fetch_time x, id' x)"
            using can that by (auto simp: is_canonical_def)
          from tuple_less_total[of "(fetch_time x, id' x)" "(ot, oi)"] c l False
          show False by (auto dest: tuple_less_trans)
        qed
        show ?thesis unfolding e is_canonical_def using \<open>url r = u\<close> ge
          by (intro bexI[of _ r]) (auto simp: tuple_less_irrefl)
      qed
    qed
  qed
qed

lemma is_canonical_fetch_time:
  assumes "is_canonical ds u e" "is_canonical ds' u e'"
    and "(\<lambda>r. (url r, fetch_time r)) ` set ds = (\<lambda>r. (url r, fetch_time r)) ` set ds'"
  shows "snd e = snd e'"
proof -
  have le: "snd b \<le> snd a"
    if a1: "is_canonical xs u a" and a2: "is_canonical ys u b"
       and a3: "(\<lambda>r. (url r, fetch_time r)) ` set ys \<subseteq> (\<lambda>r. (url r, fetch_time r)) ` set xs"
    for xs ys :: "(nat, 'a) row list" and a b
  proof -
    have "\<exists>c \<in> set ys. url c = u \<and> fetch_time c = snd b"
      using a2 by (auto simp: is_canonical_def)
    then have "(u, snd b) \<in> (\<lambda>r. (url r, fetch_time r)) ` set xs" using a3 by force
    then obtain x where x: "x \<in> set xs" "url x = u" "fetch_time x = snd b" by auto
    have "\<not> tuple_less (snd a, fst a) (fetch_time x, id' x)"
      using a1 x by (auto simp: is_canonical_def)
    then show ?thesis using x by (auto simp: tuple_less_def not_less)
  qed
  show ?thesis using le[OF assms(1,2)] le[OF assms(2,1)] assms(3) by auto
qed


lemma assign_id_upt:
  "assign_id ds [0 ..< length ds] = map (\<lambda>k. set_id (ds ! k) k) [0 ..< length ds]"
  by (rule nth_equalityI) (simp_all add: assign_id_def)


lemma compute_external_ids'_nth:
  "k < length ds \<Longrightarrow> compute_external_ids' ds ! k = resolve (build_index ds) (ds ! k)"
  by (simp add: compute_external_ids'_def)

lemma resolve_fields:
  "url (resolve m r) = url r" "id' (resolve m r) = id' r"
  "fetch_time (resolve m r) = fetch_time r" "external_urls (resolve m r) = external_urls r"
  by (simp_all add: resolve_def)


text \<open>
  Claim C8. When the arguments are accepted, \<open>main\<close> pushes a dataset whose \<open>k\<close>-th row
  is the \<open>k\<close>-th row of the concatenation of the shards, in the order given, with
  \<open>id = k\<close>. The ids are assigned before the index is built (the dataset \<open>ds\<close> handed to
  \<open>compute_external_ids_\<close> already carries them) and are the same afterwards; so they are
  distinct and are exactly \<open>0, \<dots>, N - 1\<close>.
\<close>

theorem main_ids_are_positions:
  assumes "get_args dataset_opt concat_opt = Inr a"
  shows "\<exists>ds. map id' ds = [0 ..< length ds]
           \<and> main load_dataset dataset_opt concat_opt = Inr (dataset a, compute_external_ids' ds)
           \<and> map id' (compute_external_ids' ds) = [0 ..< length ds]
           \<and> distinct (map id' (compute_external_ids' ds))
           \<and> set (map id' (compute_external_ids' ds)) = {0 ..< length ds}
           \<and> length ds = length (concat (map load_dataset (datasets_to_concatenate a)))
           \<and> (\<forall>k < length ds.
                 id' (compute_external_ids' ds ! k) = k
               \<and> url (compute_external_ids' ds ! k)
                   = url (concat (map load_dataset (datasets_to_concatenate a)) ! k)
               \<and> fetch_time (compute_external_ids' ds ! k)
                   = fetch_time (concat (map load_dataset (datasets_to_concatenate a)) ! k)
               \<and> external_urls (compute_external_ids' ds ! k)
                   = external_urls (concat (map load_dataset (datasets_to_concatenate a)) ! k))"
proof -
  define cat where "cat = concat (map load_dataset (datasets_to_concatenate a))"
  define ds where "ds = map_batched default_batch_size assign_id 0 cat"
  have ds: "ds = map (\<lambda>k. set_id (cat ! k) k) [0 ..< length cat]"
    unfolding ds_def map_batched_assign_id using assign_id_upt[of cat] by simp
  have len: "length ds = length cat" by (simp add: ds)
  have ids: "map id' ds = [0 ..< length ds]"
    by (rule nth_equalityI) (simp_all add: ds set_id_def)
  have out_ids: "map id' (compute_external_ids' ds) = [0 ..< length ds]"
    using ids by (simp add: compute_external_ids'_def resolve_def comp_def)
  have m: "main load_dataset dataset_opt concat_opt = Inr (dataset a, compute_external_ids' ds)"
    using assms by (simp add: main_def ds_def cat_def Let_def)
  have nth: "id' (compute_external_ids' ds ! k) = k
      \<and> url (compute_external_ids' ds ! k) = url (cat ! k)
      \<and> fetch_time (compute_external_ids' ds ! k) = fetch_time (cat ! k)
      \<and> external_urls (compute_external_ids' ds ! k) = external_urls (cat ! k)"
    if "k < length ds" for k
    using that len by (simp add: compute_external_ids'_nth resolve_fields) (simp add: ds set_id_def)
  have dist: "distinct (map id' (compute_external_ids' ds))" unfolding out_ids by simp
  have st: "set (map id' (compute_external_ids' ds)) = {0 ..< length ds}" unfolding out_ids by simp
  show ?thesis
    apply (rule exI[of _ ds])
    using ids m out_ids dist st len nth unfolding cat_def by blast
qed

text \<open>
  Claim C8, at a concrete hub: two shards of two rows each, accepted arguments.
\<close>

theorem main_ids_are_positions_witness:
  "\<exists>ds. main hub_with_ids (Some ''out'') (Some ''s1,s2'') = Inr (''out'', compute_external_ids' ds)
      \<and> map id' (compute_external_ids' ds) = [0 ..< 4]"
proof -
  have a: "get_args (Some ''out'') (Some ''s1,s2'')
      = Inr \<lparr>dataset = ''out'', datasets_to_concatenate = [''s1'', ''s2'']\<rparr>"
    by (simp add: get_args_def split_comma_def)
  from main_ids_are_positions[OF a, of hub_with_ids] obtain ds where
    m: "main hub_with_ids (Some ''out'') (Some ''s1,s2'')
          = Inr (dataset \<lparr>dataset = ''out'', datasets_to_concatenate = [''s1'', ''s2'']\<rparr>,
                 compute_external_ids' ds)"
    and i: "map id' (compute_external_ids' ds) = [0 ..< length ds]"
    and l: "length ds = length (concat (map hub_with_ids
              (datasets_to_concatenate \<lparr>dataset = ''out'', datasets_to_concatenate = [''s1'', ''s2'']\<rparr>)))"
    by blast
  have "length ds = 4" using l by (simp add: hub_with_ids_def)
  then show ?thesis using m i by auto
qed

text \<open>
  Claim C10. When the value of \<open>--dataset\<close> is one of the comma-separated pieces of
  \<open>--datasets-to-concatenate\<close>, \<open>get_args\<close> fails with an assertion error, and so does
  \<open>main\<close>, whatever the hub holds (no dataset is looked at); when it is none of them,
  \<open>get_args\<close> returns the parsed arguments as they are.
\<close>

theorem get_args_assertion:
  "(d \<in> set (split_comma s) \<longrightarrow>
       get_args (Some d) (Some s) = Inl AssertionError
     \<and> main load_dataset (Some d) (Some s) = Inl AssertionError)
   \<and> (d \<notin> set (split_comma s) \<longrightarrow>
       get_args (Some d) (Some s) = Inr \<lparr>dataset = d, datasets_to_concatenate = split_comma s\<rparr>)"
  by (simp add: get_args_def main_def)

text \<open>
  Claim C10, at concrete arguments: once with the output name among the inputs, once not.
\<close>

theorem get_args_assertion_witness:
  "get_args (Some ''s2'') (Some ''s1,s2'') = Inl AssertionError
   \<and> main hub_with_ids (Some ''s2'') (Some ''s1,s2'') = Inl AssertionError
   \<and> get_args (Some ''out'') (Some ''s1,s2'')
       = Inr \<lparr>dataset = ''out'', datasets_to_concatenate = [''s1'', ''s2'']\<rparr>"
  using get_args_assertion[of "''s2''" "''s1,s2''" hub_with_ids]
        get_args_assertion[of "''out''" "''s1,s2''" hub_with_ids]
  by (simp add: split_comma_def)








text \<open>
  Claim C3 as stated fails: ids are positions in the concatenation, so exchanging two shards
  that hold the same url changes the id the index gives to that url.
\<close>

theorem canonical_index_shard_order_counterexample:
  "mset [shard_early, shard_late] = mset [shard_late, shard_early]
   \<and> main_index [shard_early, shard_late] ''u1'' = Some (1, 20)
   \<and> main_index [shard_late, shard_early] ''u1'' = Some (0, 20)"
  by (simp add: main_index_def map_batched_assign_id assign_id_def set_id_def shard_early_def
      shard_late_def build_index_def index_step_def py_max_def tuple_less_def upt_rec)

lemma main_index_pairs:
  fixes shards :: "('i, 't) row list list"
  shows "(\<lambda>r. (url r, fetch_time r)) ` set (map_batched default_batch_size assign_id 0 (concat shards))
     = (\<lambda>r. (url r, fetch_time r)) ` set (concat shards)"
proof -
  have m: "map (\<lambda>r. (url r, fetch_time r)) (assign_id xs [0 ..< length xs])
        = map (\<lambda>r. (url r, fetch_time r)) xs" for xs :: "('i, 't) row list"
    by (rule nth_equalityI) (simp_all add: assign_id_def set_id_def)
  have h: "(\<lambda>r. (url r, fetch_time r)) ` set (assign_id xs [0 ..< length xs])
        = (\<lambda>r. (url r, fetch_time r)) ` set xs" for xs :: "('i, 't) row list"
    using arg_cong[OF m[of xs], of set] by (simp only: set_map)
  show ?thesis unfolding map_batched_assign_id using h[of "concat shards"] by (simp only: add_0)
qed

lemma set_concat_mset:
  assumes "mset xss = mset yss"
  shows "set (concat xss) = set (concat yss)"
proof -
  have "set xss = set yss" using assms by (rule mset_eq_setD)
  then show ?thesis by simp
qed

text \<open>
  Claim C3, amended. For shard sequences that are permutations of each other, the indexes of
  the two consolidations have the same urls and give each url the same fetch time (the ids
  are positions and may differ). And the index does not depend on the order in which rows
  that already have their ids are visited.
\<close>

theorem canonical_index_permutation:
  "(mset shards = mset shards' \<longrightarrow>
      dom (main_index shards) = dom (main_index shards')
    \<and> (\<forall>u. map_option snd (main_index shards u) = map_option snd (main_index shards' u)))
   \<and> (mset ds = mset ds' \<longrightarrow> build_index ds = build_index ds')"
proof -
  have part1: "dom (main_index shards) = dom (main_index shards')
    \<and> (\<forall>u. map_option snd (main_index shards u) = map_option snd (main_index shards' u))"
    if p: "mset shards = mset shards'"
  proof -
    let ?a = "map_batched default_batch_size assign_id 0 (concat shards)"
    let ?b = "map_batched default_batch_size assign_id 0 (concat shards')"
    have pairs: "(\<lambda>r. (url r, fetch_time r)) ` set ?a = (\<lambda>r. (url r, fetch_time r)) ` set ?b"
      unfolding main_index_pairs using set_concat_mset[OF p] by simp
    then have "fst ` (\<lambda>r. (url r, fetch_time r)) ` set ?a = fst ` (\<lambda>r. (url r, fetch_time r)) ` set ?b"
      by simp
    then have urls: "url ` set ?a = url ` set ?b" by (simp add: image_image)
    have none: "main_index shards u = None \<longleftrightarrow> main_index shards' u = None" for u
      unfolding main_index_def build_index_None urls ..
    have d: "dom (main_index shards) = dom (main_index shards')"
      using none by (auto simp: dom_def)
    have s: "map_option snd (main_index shards u) = map_option snd (main_index shards' u)" for u
    proof (cases "main_index shards u")
      case None
      then show ?thesis using none[of u] by simp
    next
      case (Some e)
      then obtain e' where e': "main_index shards' u = Some e'" using none[of u] by auto
      have "is_canonical ?a u e" using Some unfolding main_index_def by (rule build_index_Some)
      moreover have "is_canonical ?b u e'" using e' unfolding main_index_def by (rule build_index_Some)
      ultimately have "snd e = snd e'" using pairs by (rule is_canonical_fetch_time)
      then show ?thesis using Some e' by simp
    qed
    show ?thesis using d s by blast
  qed
  show ?thesis using part1 build_index_mset by blast
qed

text \<open>
  Claim C3 amended, at the two shard orders of the counterexample and at a reordering of the
  rows A, B, C.
\<close>

theorem canonical_index_permutation_witness:
  "mset [shard_early, shard_late] = mset [shard_late, shard_early]
   \<and> dom (main_index [shard_early, shard_late]) = dom (main_index [shard_late, shard_early])
   \<and> map_option snd (main_index [shard_early, shard_late] ''u1'')
       = map_option snd (main_index [shard_late, shard_early] ''u1'')
   \<and> mset [row_A, row_B, row_C] = mset [row_C, row_B, row_A]
   \<and> build_index [row_A, row_B, row_C] = build_index [row_C, row_B, row_A]"
proof -
  have p: "mset [shard_early, shard_late] = mset [shard_late, shard_early]" by simp
  have q: "mset [row_A, row_B, row_C] = mset [row_C, row_B, row_A]" by simp
  show ?thesis
    using canonical_index_permutation[of "[shard_early, shard_late]" "[shard_late, shard_early]"
            "[row_A, row_B, row_C]" "[row_C, row_B, row_A]"] p q
    by blast
qed


section \<open>Properties of the filtering visualization\<close>

lemma err_bind_Inl [simp]: "err_bind (Inl e) f = Inl e"
  by (simp add: err_bind_def)

lemma err_bind_Inr [simp]: "err_bind (Inr x) f = f x"
  by (simp add: err_bind_def)

lemma err_bind_eq_Inr: "err_bind m f = Inr y \<longleftrightarrow> (\<exists>x. m = Inr x \<and> f x = Inr y)"
  by (cases m) simp_all

lemma sequence_err_Inr:
  "sequence_err ms = Inr xs \<Longrightarrow> ms = map Inr xs"
  by (induction ms arbitrary: xs) (auto split: sum.splits)

lemma cmp_cutoff_Inr:
  "cmp_cutoff mx c (stats d name) = Inr b \<Longrightarrow> b = rule_passes (name, c, mx, ex) d"
  by (cases "(mx, c, stats d name)" rule: cmp_cutoff.cases) (auto simp: rule_passes_def)

lemma get_cond_Inr:
  assumes "get_cond name c mx df = Inr cond"
  shows "cond = map (rule_passes (name, c, mx, ex)) df"
proof -
  have m: "map (cmp_cutoff mx c) (column name df) = map Inr cond"
    using assms unfolding get_cond_def by (rule sequence_err_Inr)
  have "length (map (cmp_cutoff mx c) (column name df)) = length (map Inr cond :: (py_error + bool) list)"
    using m by (rule arg_cong)
  then have len: "length cond = length df"
    by (simp add: column_def)
  show ?thesis
  proof (rule nth_equalityI)
    show "length cond = length (map (rule_passes (name, c, mx, ex)) df)" using len by simp
  next
    fix i assume i: "i < length cond"
    then have "map (cmp_cutoff mx c) (column name df) ! i = map Inr cond ! i" using m by simp
    then have "cmp_cutoff mx c (stats (df ! i) name) = Inr (cond ! i)"
      using i len by (simp add: column_def)
    then show "cond ! i = map (rule_passes (name, c, mx, ex)) df ! i"
      using cmp_cutoff_Inr i len by simp
  qed
qed

lemma add_rule_Inr:
  assumes "add_rule (name, c, mx, ex) s = Inr (cond, s')"
  shows "cond = map (rule_passes (name, c, mx, ex)) (frames s (docs s))"
    and "s' = s\<lparr>keys := keys s @ [(name, c, mx, ex)],
               captions := captions s @ [((name, c, mx, ex), print_discared_by_cond cond)]\<rparr>"
    and "get_cond name c mx (frames s (docs s)) = Inr cond"
  using assms get_cond_Inr[of name c mx "frames s (docs s)" _ ex]
  by (auto simp: add_rule_def err_bind_eq_Inr)

lemma set_cell_None_idem [simp]: "set_cell c None (set_cell c v d) = set_cell c None d"
  by (simp add: set_cell_def)

lemma set_cell_other: "c \<noteq> c' \<Longrightarrow> stats (set_cell c v d) c' = stats d c'"
  by (simp add: set_cell_def)

lemma erase_col_length [simp]: "length (erase_col c df) = length df"
  by (simp add: erase_col_def)

lemma erase_col_set_column [simp]: "erase_col c (set_column c col df) = erase_col c df"
  by (induction c col df rule: set_column.induct) (simp_all add: erase_col_def)

lemma erase_col_map_set_cell [simp]:
  "erase_col c (map (\<lambda>d. set_cell c (g d) d) df) = erase_col c df"
  by (simp add: erase_col_def)

lemma for_each_row_select_length:
  "for_each_row (select_length n) df = Inr df' \<Longrightarrow>
     erase_col ''repetitions_ratio'' df' = erase_col ''repetitions_ratio'' df"
proof (induction df arbitrary: df')
  case Nil
  then show ?case by simp
next
  case (Cons d ds)
  then show ?case
    by (auto simp: erase_col_def select_length_def split: sum.splits option.splits cell.splits)
qed

lemma erase_col_eq_nth:
  assumes "erase_col c df = erase_col c df'"
  shows "length df = length df'"
    and "i < length df \<Longrightarrow> c' \<noteq> c \<Longrightarrow> stats (df ! i) c' = stats (df' ! i) c'"
    and "i < length df \<Longrightarrow> doc_text (df ! i) = doc_text (df' ! i)"
proof -
  show len: "length df = length df'" using arg_cong[OF assms, of length] by simp
  {
    assume i: "i < length df"
    have "erase_col c df ! i = erase_col c df' ! i" using assms by simp
    then have e: "set_cell c None (df ! i) = set_cell c None (df' ! i)"
      using i len by (simp add: erase_col_def)
    show "doc_text (df ! i) = doc_text (df' ! i)"
      using arg_cong[OF e, of doc_text] by (simp add: set_cell_def)
    assume "c' \<noteq> c"
    then show "stats (df ! i) c' = stats (df' ! i) c'"
      using arg_cong[OF e, of "\<lambda>d. stats d c'"] by (simp add: set_cell_def)
  }
qed

lemma rule_passes_erase:
  assumes "erase_col c df = erase_col c df'" and "fst k \<noteq> c"
  shows "map (rule_passes k) df = map (rule_passes k) df'"
proof (rule nth_equalityI)
  show "length (map (rule_passes k) df) = length (map (rule_passes k) df')"
    using erase_col_eq_nth(1)[OF assms(1)] by simp
next
  fix i assume "i < length (map (rule_passes k) df)"
  then have i: "i < length df" by simp
  have "stats (df ! i) (fst k) = stats (df' ! i) (fst k)"
    using erase_col_eq_nth(2)[OF assms(1) i assms(2)] .
  then show "map (rule_passes k) df ! i = map (rule_passes k) df' ! i"
    using i erase_col_eq_nth(1)[OF assms(1)] by (cases k) (simp add: rule_passes_def)
qed

lemma column_erase:
  assumes "erase_col c df = erase_col c df'" and "c' \<noteq> c"
  shows "column c' df = column c' df'"
  unfolding column_def
  by (rule nth_equalityI)
     (use erase_col_eq_nth(1,2)[OF assms(1)] assms(2) in auto)

lemma rewritten_refl [simp]: "rewritten X s s"
  by (simp add: rewritten_def)

lemma rewritten_write_docs:
  "erase_col X df = erase_col X (frames s (docs s)) \<Longrightarrow> rewritten X s (write_docs df s)"
  by (simp add: rewritten_def write_docs_def)

lemma rewritten_trans: "rewritten X s s0 \<Longrightarrow> rewritten X s0 s1 \<Longrightarrow> rewritten X s s1"
  by (simp add: rewritten_def)

lemma rewritten_restore_column: "rewritten X s (restore_column X s)"
  unfolding restore_column_def by (rule rewritten_write_docs) simp

lemma rewritten_recompute_column: "rewritten X s (recompute_column X f s)"
proof -
  have "rewritten X (restore_column X s)
          (write_docs (map (\<lambda>d. set_cell X (Some (Num (f (doc_text d)))) d)
             (frames (restore_column X s) (docs (restore_column X s)))) (restore_column X s))"
    by (rule rewritten_write_docs) simp
  then show ?thesis
    unfolding recompute_column_def Let_def
    using rewritten_restore_column rewritten_trans by blast
qed

lemma threshold_rule_step:
  assumes r: "err_bind (add_rule (X, c, mx, ex) s0) (\<lambda>(cond, s). Inr (set_conds X [cond] s)) = Inr s'"
    and rw: "rewritten X s s0"
  shows "section_step X s s'"
proof -
  obtain cond s1 where a: "add_rule (X, c, mx, ex) s0 = Inr (cond, s1)"
    and s': "s' = set_conds X [cond] s1"
    using r by (auto simp: err_bind_eq_Inr)
  note f = add_rule_Inr(1,2)[OF a]
  have "s' = with_rules X [(X, c, mx, ex)] s0"
    unfolding s' f(2) with_rules_def set_conds_def using f(1) by simp
  then show ?thesis unfolding section_step_def using rw
    by (intro disjI2 exI[of _ s0] exI[of _ "[(X, c, mx, ex)]"]) simp
qed

lemma number_words_section_step:
  assumes "number_words_section columns w s = Inr s'"
  shows "section_step ''number_words'' s s'"
proof (cases "columns ''number_words''")
  case False
  then show ?thesis using assms by (simp add: number_words_section_def section_step_def)
next
  case True
  let ?k1 = "(''number_words'', cutoff_min_number_words w, False, None)"
  let ?k2 = "(''number_words'', cutoff_max_number_words w, True, None)"
  from assms True obtain cond_1 s1 cond_2 s2 where
    a1: "add_rule ?k1 s = Inr (cond_1, s1)" and
    a2: "add_rule ?k2 s1 = Inr (cond_2, s2)" and
    s': "s' = set_conds ''number_words'' [cond_1, cond_2] s2"
    by (auto simp: number_words_section_def err_bind_eq_Inr)
  note f1 = add_rule_Inr(1,2)[OF a1]
  note f2 = add_rule_Inr(1,2)[OF a2]
  have fr: "frames s1 (docs s1) = frames s (docs s)" unfolding f1(2) by simp
  have "s' = with_rules ''number_words'' [?k1, ?k2] s"
    unfolding s' f2(2) with_rules_def set_conds_def
    using f1(1) f2(1) fr unfolding f1(2) by simp
  then show ?thesis unfolding section_step_def
    by (intro disjI2 exI[of _ s] exI[of _ "[?k1, ?k2]"]) simp
qed

lemma repetitions_ratio_section_step:
  assumes "repetitions_ratio_section columns w s = Inr s'"
  shows "section_step ''repetitions_ratio'' s s'"
proof (cases "columns ''repetitions_ratio''")
  case False
  then show ?thesis using assms by (simp add: repetitions_ratio_section_def section_step_def)
next
  case True
  let ?s1 = "restore_column ''repetitions_ratio'' s"
  from assms True obtain vals n df where
    l: "for_each_row (select_length n) (frames ?s1 (docs ?s1)) = Inr df" and
    r: "err_bind (add_rule (''repetitions_ratio'', cutoff_repetitions_ratio w, True, n) (write_docs df ?s1))
          (\<lambda>(cond, s). Inr (set_conds ''repetitions_ratio'' [cond] s)) = Inr s'"
    by (auto simp: repetitions_ratio_section_def err_bind_eq_Inr Let_def)
  have "rewritten ''repetitions_ratio'' ?s1 (write_docs df ?s1)"
    by (rule rewritten_write_docs) (rule for_each_row_select_length[OF l])
  then have "rewritten ''repetitions_ratio'' s (write_docs df ?s1)"
    using rewritten_restore_column rewritten_trans by blast
  then show ?thesis using r by (rule threshold_rule_step[rotated])
qed

lemma special_characters_ratio_section_step:
  assumes "special_characters_ratio_section columns w s = Inr s'"
  shows "section_step ''special_characters_ratio'' s s'"
proof (cases "columns ''special_characters_ratio''")
  case False
  then show ?thesis using assms by (simp add: special_characters_ratio_section_def section_step_def)
next
  case True
  then show ?thesis using assms
    by (auto simp: special_characters_ratio_section_def intro: threshold_rule_step)
qed

lemma stopwords_ratio_section_step:
  assumes "stopwords_ratio_section cfg columns w s = Inr s'"
  shows "section_step ''stopwords_ratio'' s s'"
proof (cases "columns ''stopwords_ratio''")
  case False
  then show ?thesis using assms by (simp add: stopwords_ratio_section_def section_step_def)
next
  case True
  then show ?thesis using assms
    by (auto simp: stopwords_ratio_section_def Let_def split: option.splits
          intro: threshold_rule_step rewritten_recompute_column)
qed

lemma flagged_words_ratio_section_step:
  assumes "flagged_words_ratio_section cfg columns w s = Inr s'"
  shows "section_step ''flagged_words_ratio'' s s'"
proof (cases "columns ''flagged_words_ratio''")
  case False
  then show ?thesis using assms by (simp add: flagged_words_ratio_section_def section_step_def)
next
  case True
  then show ?thesis using assms
    by (auto simp: flagged_words_ratio_section_def Let_def split: option.splits
          intro: threshold_rule_step rewritten_recompute_column)
qed

lemma lang_id_score_section_step:
  assumes "lang_id_score_section columns w s = Inr s'"
  shows "section_step ''lang_id_score'' s s'"
proof (cases "columns ''lang_id_score''")
  case False
  then show ?thesis using assms by (simp add: lang_id_score_section_def section_step_def)
next
  case True
  then show ?thesis using assms
    by (auto simp: lang_id_score_section_def intro: threshold_rule_step)
qed

lemma perplexity_score_section_step:
  assumes "perplexity_score_section columns w s = Inr s'"
  shows "section_step ''perplexity_score'' s s'"
proof (cases "columns ''perplexity_score''")
  case False
  then show ?thesis using assms by (simp add: perplexity_score_section_def section_step_def)
next
  case True
  then show ?thesis using assms
    by (auto simp: perplexity_score_section_def intro: threshold_rule_step)
qed

lemma evaluated_weaken: "evaluated S s \<Longrightarrow> S \<subseteq> T \<Longrightarrow> evaluated T s"
  by (auto simp: evaluated_def)

lemma evaluated_step:
  assumes ev: "evaluated S s" and X: "X \<notin> S" and st: "section_step X s s'"
  shows "evaluated (insert X S) s'"
proof -
  from st consider "s' = s"
    | s0 ks where "rewritten X s s0" "\<forall>k \<in> set ks. fst k = X" "s' = with_rules X ks s0"
    unfolding section_step_def by blast
  then show ?thesis
  proof cases
    case 1
    then show ?thesis using ev by (auto intro: evaluated_weaken)
  next
    case 2
    have fr: "erase_col X (frames s0 (docs s)) = erase_col X (frames s (docs s))"
      and same: "keys s0 = keys s" "conds s0 = conds s" "captions s0 = captions s" "docs s0 = docs s"
      using 2(1) by (simp_all add: rewritten_def)
    have old: "map (rule_passes k) (frames s0 (docs s)) = map (rule_passes k) (frames s (docs s))"
      if "k \<in> set (keys s)" for k
    proof -
      have "fst k \<in> S" using ev that by (auto simp: evaluated_def)
      then have "fst k \<noteq> X" using X by auto
      then show ?thesis using fr by (rule rule_passes_erase[rotated])
    qed
    have c: "concat (map snd (conds s)) = map (\<lambda>k. map (rule_passes k) (frames s0 (docs s))) (keys s)"
      using ev old unfolding evaluated_def by (simp cong: map_cong)
    have p: "captions s = map (\<lambda>k. (k, print_discared_by_cond (map (rule_passes k) (frames s0 (docs s))))) (keys s)"
      using ev old unfolding evaluated_def by (simp cong: map_cong)
    have n: "fst ` set (keys s) \<subseteq> S" using ev by (simp add: evaluated_def)
    show ?thesis
      unfolding 2(3) evaluated_def with_rules_def
      using c p n 2(2) same by (auto simp: comp_def)
  qed
qed

lemma section_step_frame:
  assumes "section_step X s s'"
  shows "docs s' = docs s" and "docs_checkpoint s' = docs_checkpoint s"
    and "\<forall>a. erase_col X (frames s' a) = erase_col X (frames s a)"
    and "self_keys s' = self_keys s"
  using assms by (auto simp: section_step_def rewritten_def with_rules_def)

lemma set_sliders_sections:
  assumes "set_sliders cfg w s = Inr s7"
  obtains s1 s2 s3 s4 s5 s6 where
    "section_step ''number_words'' (s\<lparr>keys := [], conds := [], captions := []\<rparr>) s1"
    "section_step ''repetitions_ratio'' s1 s2"
    "section_step ''special_characters_ratio'' s2 s3"
    "section_step ''stopwords_ratio'' s3 s4"
    "section_step ''flagged_words_ratio'' s4 s5"
    "section_step ''lang_id_score'' s5 s6"
    "section_step ''perplexity_score'' s6 s7"
proof -
  let ?c = "\<lambda>c. in_columns c (frames s (docs s))"
  from assms obtain s1 s2 s3 s4 s5 s6 where r:
    "number_words_section ?c w (s\<lparr>keys := [], conds := [], captions := []\<rparr>) = Inr s1"
    "repetitions_ratio_section ?c w s1 = Inr s2"
    "special_characters_ratio_section ?c w s2 = Inr s3"
    "stopwords_ratio_section cfg ?c w s3 = Inr s4"
    "flagged_words_ratio_section cfg ?c w s4 = Inr s5"
    "lang_id_score_section ?c w s5 = Inr s6"
    "perplexity_score_section ?c w s6 = Inr s7"
    unfolding set_sliders_def Let_def err_bind_eq_Inr by blast
  show ?thesis
    by (rule that[OF number_words_section_step[OF r(1)] repetitions_ratio_section_step[OF r(2)]
          special_characters_ratio_section_step[OF r(3)] stopwords_ratio_section_step[OF r(4)]
          flagged_words_ratio_section_step[OF r(5)] lang_id_score_section_step[OF r(6)]
          perplexity_score_section_step[OF r(7)]])
qed

lemma set_sliders_evaluated:
  assumes "set_sliders cfg w s = Inr s'"
  shows "evaluated UNIV s'"
proof -
  from assms obtain s1 s2 s3 s4 s5 s6 where st:
    "section_step ''number_words'' (s\<lparr>keys := [], conds := [], captions := []\<rparr>) s1"
    "section_step ''repetitions_ratio'' s1 s2"
    "section_step ''special_characters_ratio'' s2 s3"
    "section_step ''stopwords_ratio'' s3 s4"
    "section_step ''flagged_words_ratio'' s4 s5"
    "section_step ''lang_id_score'' s5 s6"
    "section_step ''perplexity_score'' s6 s'"
    by (rule set_sliders_sections)
  have e0: "evaluated {} (s\<lparr>keys := [], conds := [], captions := []\<rparr>)"
    by (simp add: evaluated_def)
  have e1: "evaluated {''number_words''} s1"
    using evaluated_step[OF e0 _ st(1)] by simp
  have e2: "evaluated {''repetitions_ratio'', ''number_words''} s2"
    using evaluated_step[OF e1 _ st(2)] by simp
  have e3: "evaluated {''special_characters_ratio'', ''repetitions_ratio'', ''number_words''} s3"
    using evaluated_step[OF e2 _ st(3)] by simp
  have e4: "evaluated {''stopwords_ratio'', ''special_characters_ratio'', ''repetitions_ratio'',
              ''number_words''} s4"
    using evaluated_step[OF e3 _ st(4)] by simp
  have e5: "evaluated {''flagged_words_ratio'', ''stopwords_ratio'', ''special_characters_ratio'',
              ''repetitions_ratio'', ''number_words''} s5"
    using evaluated_step[OF e4 _ st(5)] by simp
  have e6: "evaluated {''lang_id_score'', ''flagged_words_ratio'', ''stopwords_ratio'',
              ''special_characters_ratio'', ''repetitions_ratio'', ''number_words''} s6"
    using evaluated_step[OF e5 _ st(6)] by simp
  have e7: "evaluated {''perplexity_score'', ''lang_id_score'', ''flagged_words_ratio'',
              ''stopwords_ratio'', ''special_characters_ratio'', ''repetitions_ratio'',
              ''number_words''} s'"
    using evaluated_step[OF e6 _ st(7)] by simp
  then show ?thesis by (rule evaluated_weaken) simp
qed

lemma loc_map: "loc df (map P df) = filter P df"
  unfolding loc_def by (induction df) simp_all

lemma np_all_axis0_map:
  assumes "ks \<noteq> []"
  shows "np_all_axis0 (map (\<lambda>k. map (P k) df) ks) = map (\<lambda>d. \<forall>k \<in> set ks. P k d) df"
proof (rule nth_equalityI)
  show "length (np_all_axis0 (map (\<lambda>k. map (P k) df) ks)) = length (map (\<lambda>d. \<forall>k \<in> set ks. P k d) df)"
    using assms by (cases ks) (simp_all add: np_all_axis0_def)
next
  fix i assume "i < length (np_all_axis0 (map (\<lambda>k. map (P k) df) ks))"
  then have i: "i < length df" using assms by (cases ks) (simp_all add: np_all_axis0_def)
  have "length (hd (map (\<lambda>k. map (P k) df) ks)) = length df"
    using assms by (cases ks) simp_all
  then show "np_all_axis0 (map (\<lambda>k. map (P k) df) ks) ! i = map (\<lambda>d. \<forall>k \<in> set ks. P k d) df ! i"
    using i by (simp add: np_all_axis0_def list_all_iff)
qed

lemma filtering_of_docs_Inr:
  assumes "filtering_of_docs cfg w s = Inr r"
  obtains s' where "set_sliders cfg w s = Inr s'" "after r = s'\<lparr>self_keys := keys s'\<rparr>"
    "keys s' \<noteq> []"
    "mask r = map (\<lambda>d. \<forall>k \<in> set (keys s'). rule_passes k d) (frames s' (docs s'))"
    "retained r = loc (frames s' (docs s')) (mask r)"
    "discarded r = loc (frames s' (docs s')) (map Not (mask r))"
proof -
  from assms obtain s' where s': "set_sliders cfg w s = Inr s'"
    and ne: "concat (map snd (conds s')) \<noteq> []"
    and r: "r = \<lparr>after = s'\<lparr>self_keys := keys s'\<rparr>,
                mask = np_all_axis0 (concat (map snd (conds s'))),
                discarded = loc (frames s' (docs s')) (map Not (np_all_axis0 (concat (map snd (conds s'))))),
                discarded_by_filter =
                  (if display_discarded_documents_by_filter w
                   then Some (map (\<lambda>(name, cs). (name, loc (frames s' (docs s')) (map Not (np_all_axis0 cs))))
                               (conds s'))
                   else None),
                retained = loc (frames s' (docs s')) (np_all_axis0 (concat (map snd (conds s'))))\<rparr>"
    unfolding filtering_of_docs_def err_bind_eq_Inr
    by (auto simp: Let_def split: if_splits)
  have ev: "evaluated UNIV s'" using s' by (rule set_sliders_evaluated)
  then have flat: "concat (map snd (conds s')) = map (\<lambda>k. map (rule_passes k) (frames s' (docs s'))) (keys s')"
    by (simp add: evaluated_def)
  have k: "keys s' \<noteq> []" using ne flat by auto
  have m: "mask r = map (\<lambda>d. \<forall>k \<in> set (keys s'). rule_passes k d) (frames s' (docs s'))"
    unfolding r flat using np_all_axis0_map[OF k] by simp
  show ?thesis
    by (rule that[OF s' _ k m]) (simp_all add: r)
qed

lemmas run_defs = filtering_of_docs_def set_sliders_def
  number_words_section_def repetitions_ratio_section_def special_characters_ratio_section_def
  stopwords_ratio_section_def flagged_words_ratio_section_def lang_id_score_section_def
  perplexity_score_section_def in_columns_def add_rule_def get_cond_def column_def set_conds_def
  restore_column_def write_docs_def selectbox_def select_length_def set_cell_def
  print_discared_by_cond_def np_all_axis0_def loc_def recompute_column_def Let_def
  example_state_def example_data_def doc_short_def doc_long_def example_widgets_def
  example_config_def ratio_in_def newline_def

lemma example_run:
  "filtering_of_docs example_config example_widgets example_state = Inr example_result"
  by (simp add: example_result_def run_defs)

lemma example_result_mask: "mask example_result = [False, True]"
  by (simp add: example_result_def run_defs)

lemma example_result_retained:
  "map doc_text (retained example_result) = [''a b c d e f g h i j k the'']"
  by (simp add: example_result_def run_defs)

lemma example_result_captions:
  "map snd (captions (after example_result)) = [50, 0, 0, 0, 0, 0]"
  by (simp add: example_result_def run_defs)

lemma rule_passes_Num:
  "stats d name = Some (Num v) \<Longrightarrow>
     (rule_passes (name, t, True, ex) d \<longleftrightarrow> v \<le> t)
   \<and> (rule_passes (name, t, False, ex) d \<longleftrightarrow> t \<le> v)"
  by (simp add: rule_passes_def)

text \<open>
  Claim C2. When \<open>filtering_of_docs\<close> succeeds, the rule set is the list of keys that
  \<open>set_sliders\<close> has built. A rule on a column where the document has the number \<open>v\<close> passes iff
  \<open>v <= threshold\<close> when it is a max cutoff and iff \<open>v >= threshold\<close> when it is a min cutoff.
  For every document of the frame, the entry of the retention mask is the conjunction of the
  tests of all the rules on this document; the retained documents are exactly those that pass
  every rule, the discarded ones the others.
\<close>

theorem admission_is_conjunction:
  assumes "filtering_of_docs cfg w s = Inr r"
  shows "(\<forall>d name v t ex. stats d name = Some (Num v) \<longrightarrow>
            (rule_passes (name, t, True, ex) d \<longleftrightarrow> v \<le> t)
          \<and> (rule_passes (name, t, False, ex) d \<longleftrightarrow> v \<ge> t))
       \<and> length (mask r) = length (frames (after r) (docs (after r)))
       \<and> (\<forall>i < length (frames (after r) (docs (after r))).
             mask r ! i \<longleftrightarrow>
               (\<forall>k \<in> set (self_keys (after r)). rule_passes k (frames (after r) (docs (after r)) ! i)))
       \<and> retained r
           = filter (\<lambda>d. \<forall>k \<in> set (self_keys (after r)). rule_passes k d)
               (frames (after r) (docs (after r)))
       \<and> discarded r
           = filter (\<lambda>d. \<not> (\<forall>k \<in> set (self_keys (after r)). rule_passes k d))
               (frames (after r) (docs (after r)))"
proof -
  from assms obtain s' where
    a: "after r = s'\<lparr>self_keys := keys s'\<rparr>" and
    m: "mask r = map (\<lambda>d. \<forall>k \<in> set (keys s'). rule_passes k d) (frames s' (docs s'))" and
    rt: "retained r = loc (frames s' (docs s')) (mask r)" and
    dc: "discarded r = loc (frames s' (docs s')) (map Not (mask r))"
    by (rule filtering_of_docs_Inr)
  have k: "self_keys (after r) = keys s'" and f: "frames (after r) (docs (after r)) = frames s' (docs s')"
    by (simp_all add: a)
  have dc': "discarded r = filter (\<lambda>d. \<not> (\<forall>k \<in> set (keys s'). rule_passes k d)) (frames s' (docs s'))"
    unfolding dc m using loc_map[of "frames s' (docs s')" "\<lambda>d. \<not> (\<forall>k \<in> set (keys s'). rule_passes k d)"]
    by (simp add: comp_def)
  have rt': "retained r = filter (\<lambda>d. \<forall>k \<in> set (keys s'). rule_passes k d) (frames s' (docs s'))"
    unfolding rt m by (rule loc_map)
  show ?thesis
    unfolding k f using m rt' dc' rule_passes_Num by simp
qed

text \<open>
  Claim C2, on the small data set: the run succeeds; the 3-word document is discarded, the
  12-word one is retained.
\<close>

theorem admission_is_conjunction_witness:
  "filtering_of_docs example_config example_widgets example_state = Inr example_result
   \<and> mask example_result = [False, True]
   \<and> map doc_text (retained example_result) = [''a b c d e f g h i j k the'']
   \<and> retained example_result
         = filter (\<lambda>d. \<forall>k \<in> set (self_keys (after example_result)). rule_passes k d)
             (frames (after example_result) (docs (after example_result)))"
proof -
  have c: "retained example_result
         = filter (\<lambda>d. \<forall>k \<in> set (self_keys (after example_result)). rule_passes k d)
             (frames (after example_result) (docs (after example_result)))"
    using admission_is_conjunction[OF example_run] by (elim conjE)
  show ?thesis
    by (intro conjI example_run example_result_mask example_result_retained c)
qed

lemma print_discared_by_cond_failing:
  "print_discared_by_cond (map (rule_passes k) df)
     = of_nat (failing k df) / of_nat (length df) * 100"
proof -
  have "length (filter (rule_passes k) df) + failing k df = length df"
    unfolding failing_def by (rule sum_length_filter_compl)
  then have "(of_nat (length df) :: rat) - of_nat (length (filter (rule_passes k) df))
               = of_nat (failing k df)"
    by (metis add_diff_cancel_left' of_nat_add)
  moreover have "filter id (map (rule_passes k) df) = map (rule_passes k) (filter (rule_passes k) df)"
    by (simp add: filter_map comp_def)
  ultimately show ?thesis by (simp add: print_discared_by_cond_def)
qed

lemma section_step_length:
  "section_step X s s' \<Longrightarrow> length (frames s' (docs s')) = length (frames s (docs s))"
  using section_step_frame(1,3)[of X s s'] erase_col_eq_nth(1)[of X "frames s' (docs s)" "frames s (docs s)"]
  by simp

lemma set_sliders_length:
  assumes "set_sliders cfg w s = Inr s'"
  shows "length (frames s' (docs s')) = length (frames s (docs s))"
proof -
  from assms obtain s1 s2 s3 s4 s5 s6 where st:
    "section_step ''number_words'' (s\<lparr>keys := [], conds := [], captions := []\<rparr>) s1"
    "section_step ''repetitions_ratio'' s1 s2"
    "section_step ''special_characters_ratio'' s2 s3"
    "section_step ''stopwords_ratio'' s3 s4"
    "section_step ''flagged_words_ratio'' s4 s5"
    "section_step ''lang_id_score'' s5 s6"
    "section_step ''perplexity_score'' s6 s'"
    by (rule set_sliders_sections)
  show ?thesis
    using st[THEN section_step_length] by simp
qed

lemma set_sliders_empty:
  assumes "set_sliders cfg w s = Inr s'" and "frames s (docs s) = []"
  shows "keys s' = []"
  using assms
  by (simp add: set_sliders_def in_columns_def number_words_section_def
      repetitions_ratio_section_def special_characters_ratio_section_def
      stopwords_ratio_section_def flagged_words_ratio_section_def lang_id_score_section_def
      perplexity_score_section_def) auto

text \<open>
  Claim C6 as stated fails: what is reported for a rule is not the number of documents that
  fail it. On the small data set one document of the two fails the rule "at least 10 words",
  and the caption of this rule says 50.
\<close>

theorem discard_count_counterexample:
  "get_cond ''number_words'' 10 False example_data = Inr [False, True]
   \<and> print_discared_by_cond [False, True] = 50
   \<and> failing (''number_words'', 10, False, None) example_data = 1"
  by (simp add: get_cond_def column_def example_data_def doc_short_def doc_long_def
      print_discared_by_cond_def failing_def rule_passes_def)

text \<open>
  Claim C6, amended. For every rule, the figure in the caption of the rule is the percentage
  \<open>100 * n / N\<close>, where \<open>n\<close> is the number of documents of the whole frame that fail this rule
  taken alone and \<open>N > 0\<close> the number of documents of the frame; no other rule enters it.
\<close>

theorem captions_are_isolated_percentages:
  assumes "filtering_of_docs cfg w s = Inr r"
  shows "frames (after r) (docs (after r)) \<noteq> []
       \<and> captions (after r)
           = map (\<lambda>k. (k, of_nat (failing k (frames (after r) (docs (after r))))
                           / of_nat (length (frames (after r) (docs (after r)))) * 100))
               (self_keys (after r))"
proof -
  from assms obtain s' where
    ss: "set_sliders cfg w s = Inr s'" and
    a: "after r = s'\<lparr>self_keys := keys s'\<rparr>" and
    ne: "keys s' \<noteq> []"
    by (rule filtering_of_docs_Inr)
  have "evaluated UNIV s'" using ss by (rule set_sliders_evaluated)
  then have c: "captions s' = map (\<lambda>k. (k, print_discared_by_cond (map (rule_passes k) (frames s' (docs s'))))) (keys s')"
    by (simp add: evaluated_def)
  have "frames s (docs s) \<noteq> []" using set_sliders_empty[OF ss] ne by blast
  then have n: "frames s' (docs s') \<noteq> []" using set_sliders_length[OF ss] by auto
  show ?thesis using c n by (simp add: a print_discared_by_cond_failing)
qed

text \<open>
  Claim C6 amended, on the small data set: the 3-word document is counted by the rule "at
  least 10 words" (1 of 2 documents, 50 percent) and the other rules discard nothing.
\<close>

theorem captions_are_isolated_percentages_witness:
  "filtering_of_docs example_config example_widgets example_state = Inr example_result
   \<and> captions (after example_result)
         = map (\<lambda>k. (k, of_nat (failing k (frames (after example_result) (docs (after example_result))))
                         / of_nat (length (frames (after example_result) (docs (after example_result)))) * 100))
             (self_keys (after example_result))
   \<and> map snd (captions (after example_result)) = [50, 0, 0, 0, 0, 0]"
proof -
  have c: "captions (after example_result)
         = map (\<lambda>k. (k, of_nat (failing k (frames (after example_result) (docs (after example_result))))
                         / of_nat (length (frames (after example_result) (docs (after example_result)))) * 100))
             (self_keys (after example_result))"
    using captions_are_isolated_percentages[OF example_run] by (rule conjunct2)
  show ?thesis
    by (intro conjI example_run example_result_captions c)
qed

lemma threshold_rule_shape:
  assumes "err_bind (add_rule (X, c, mx, ex) s0) (\<lambda>(cond, s). Inr (set_conds X [cond] s)) = Inr s'"
  shows "s' = with_rules X [(X, c, mx, ex)] s0"
proof -
  obtain cond s1 where a: "add_rule (X, c, mx, ex) s0 = Inr (cond, s1)"
    and s': "s' = set_conds X [cond] s1"
    using assms by (auto simp: err_bind_eq_Inr)
  note f = add_rule_Inr(1,2)[OF a]
  show ?thesis
    unfolding s' f(2) with_rules_def set_conds_def using f(1) by simp
qed

text \<open>The state in which the rule of a lexicon expander is evaluated.\<close>

lemma stopwords_ratio_section_shape:
  assumes "stopwords_ratio_section cfg columns w s = Inr s'"
  shows "s' = (if columns ''stopwords_ratio''
               then with_rules ''stopwords_ratio''
                      [(''stopwords_ratio'', cutoff_stopwords_ratio w, False, None)]
                      (case stopwords_file w of
                         None \<Rightarrow> s
                       | Some t \<Rightarrow> recompute_column ''stopwords_ratio''
                            (\<lambda>text. compute_stopwords_ratio cfg text (set (py_split newline t))) s)
               else s)"
  using assms
  by (cases "stopwords_file w")
     (auto simp: stopwords_ratio_section_def Let_def split: if_splits intro: threshold_rule_shape)

lemma flagged_words_ratio_section_shape:
  assumes "flagged_words_ratio_section cfg columns w s = Inr s'"
  shows "s' = (if columns ''flagged_words_ratio''
               then with_rules ''flagged_words_ratio''
                      [(''flagged_words_ratio'', cutoff_flagged_words_ratio w, True, None)]
                      (case flagged_words_file w of
                         None \<Rightarrow> s
                       | Some t \<Rightarrow> recompute_column ''flagged_words_ratio''
                            (\<lambda>text. compute_flagged_words_ratio cfg text (set (py_split newline t))) s)
               else s)"
  using assms
  by (cases "flagged_words_file w")
     (auto simp: flagged_words_ratio_section_def Let_def split: if_splits intro: threshold_rule_shape)

lemma lang_id_score_section_shape:
  assumes "lang_id_score_section columns w s = Inr s'"
  shows "s' = (if columns ''lang_id_score''
               then with_rules ''lang_id_score''
                      [(''lang_id_score'', cutoff_lang_id_score w, False, None)] s
               else s)"
  using assms
  by (auto simp: lang_id_score_section_def split: if_splits intro: threshold_rule_shape)

lemma perplexity_score_section_shape:
  assumes "perplexity_score_section columns w s = Inr s'"
  shows "s' = (if columns ''perplexity_score''
               then with_rules ''perplexity_score''
                      [(''perplexity_score'', cutoff_perplexity_score w, True, None)] s
               else s)"
  using assms
  by (auto simp: perplexity_score_section_def split: if_splits intro: threshold_rule_shape)

lemma agree_except_refl [simp]: "agree_except c s s"
  by (simp add: agree_except_def)

lemma agree_except_with_rules_same:
  assumes "rewritten c s s0" and "rewritten c s s0'" and "\<forall>k \<in> set ks. fst k = c"
  shows "agree_except c (with_rules c ks s0) (with_rules c ks s0')"
  using assms by (auto simp: agree_except_def with_rules_def rewritten_def)

lemma agree_except_with_rules_other:
  assumes a: "agree_except c s s'" and X: "X \<noteq> c" and ks: "\<forall>k \<in> set ks. fst k = X"
  shows "agree_except c (with_rules X ks s) (with_rules X ks s')"
proof -
  have d: "docs s = docs s'" and e: "erase_col c (frames s (docs s)) = erase_col c (frames s' (docs s))"
    using a by (simp_all add: agree_except_def)
  have m: "map (rule_passes k) (frames s (docs s)) = map (rule_passes k) (frames s' (docs s'))"
    if "k \<in> set ks" for k
  proof -
    have "fst k \<noteq> c" using that ks X by auto
    then show ?thesis using rule_passes_erase[OF e] d by simp
  qed
  have m1: "map (\<lambda>k. map (rule_passes k) (frames s (docs s))) ks
          = map (\<lambda>k. map (rule_passes k) (frames s' (docs s'))) ks"
    using m by simp
  have m2: "map (\<lambda>k. (k, print_discared_by_cond (map (rule_passes k) (frames s (docs s))))) ks
          = map (\<lambda>k. (k, print_discared_by_cond (map (rule_passes k) (frames s' (docs s'))))) ks"
    using m by simp
  show ?thesis
    using a unfolding agree_except_def with_rules_def m1 m2 by simp
qed

lemma erase_col_set_column_other:
  "X \<noteq> c \<Longrightarrow> erase_col c (set_column X col df) = set_column X col (erase_col c df)"
  by (induction X col df rule: set_column.induct)
     (auto simp: erase_col_def set_cell_def fun_upd_twist)

lemma erase_col_recomputed_other:
  "X \<noteq> c \<Longrightarrow>
   erase_col c (map (\<lambda>d. set_cell X (Some (Num (f (doc_text d)))) d) df)
     = map (\<lambda>d. set_cell X (Some (Num (f (doc_text d)))) d) (erase_col c df)"
  by (auto simp: erase_col_def set_cell_def fun_upd_twist)

lemma agree_except_recompute_column:
  assumes a: "agree_except c s s'" and X: "X \<noteq> c"
  shows "agree_except c (recompute_column X f s) (recompute_column X f s')"
proof -
  have d: "docs s' = docs s" and k: "docs_checkpoint s' = docs_checkpoint s"
    and e: "\<And>a. erase_col c (frames s a) = erase_col c (frames s' a)"
    using a by (simp_all add: agree_except_def)
  have col: "column X (frames s (docs_checkpoint s)) = column X (frames s' (docs_checkpoint s))"
    using column_erase[OF e X] .
  let ?g = "\<lambda>t df. map (\<lambda>d. set_cell X (Some (Num (f (doc_text d)))) d)
                      (set_column X (column X (frames t (docs_checkpoint s))) df)"
  have fr: "frames (recompute_column X f t) = (frames t)(docs t := ?g t (frames t (docs t)))"
    if "docs_checkpoint t = docs_checkpoint s" for t
    using that by (simp add: recompute_column_def restore_column_def write_docs_def Let_def)
  have eq: "erase_col c (?g s (frames s (docs s))) = erase_col c (?g s' (frames s' (docs s)))"
    using X e[of "docs s"] col
    by (simp add: erase_col_recomputed_other erase_col_set_column_other)
  have other: "keys (recompute_column X f t) = keys t" "conds (recompute_column X f t) = conds t"
    "captions (recompute_column X f t) = captions t" "docs (recompute_column X f t) = docs t"
    "docs_checkpoint (recompute_column X f t) = docs_checkpoint t" for t
    by (simp_all add: recompute_column_def restore_column_def write_docs_def Let_def)
  show ?thesis
    unfolding agree_except_def other fr[OF refl] fr[OF k]
    using a eq e d by (auto simp: agree_except_def)
qed

lemma agree_except_case_recompute:
  assumes "agree_except c s s'" and "X \<noteq> c"
  shows "agree_except c (case upload of None \<Rightarrow> s | Some t \<Rightarrow> recompute_column X (f t) s)
                        (case upload of None \<Rightarrow> s' | Some t \<Rightarrow> recompute_column X (f t) s')"
  using assms by (cases upload) (simp_all add: agree_except_recompute_column)


lemma set_sliders_Inr:
  assumes "set_sliders cfg w s = Inr s7"
  obtains s1 s2 s3 s4 s5 s6 where
    "number_words_section (\<lambda>c. in_columns c (frames s (docs s))) w
       (s\<lparr>keys := [], conds := [], captions := []\<rparr>) = Inr s1"
    "repetitions_ratio_section (\<lambda>c. in_columns c (frames s (docs s))) w s1 = Inr s2"
    "special_characters_ratio_section (\<lambda>c. in_columns c (frames s (docs s))) w s2 = Inr s3"
    "stopwords_ratio_section cfg (\<lambda>c. in_columns c (frames s (docs s))) w s3 = Inr s4"
    "flagged_words_ratio_section cfg (\<lambda>c. in_columns c (frames s (docs s))) w s4 = Inr s5"
    "lang_id_score_section (\<lambda>c. in_columns c (frames s (docs s))) w s5 = Inr s6"
    "perplexity_score_section (\<lambda>c. in_columns c (frames s (docs s))) w s6 = Inr s7"
  using assms unfolding set_sliders_def Let_def err_bind_eq_Inr by blast

lemma sections_ignore_stopwords_file:
  "number_words_section c (w\<lparr>stopwords_file := f\<rparr>) = number_words_section c w"
  "repetitions_ratio_section c (w\<lparr>stopwords_file := f\<rparr>) = repetitions_ratio_section c w"
  "special_characters_ratio_section c (w\<lparr>stopwords_file := f\<rparr>)
     = special_characters_ratio_section c w"
  "flagged_words_ratio_section cfg c (w\<lparr>stopwords_file := f\<rparr>) = flagged_words_ratio_section cfg c w"
  "lang_id_score_section c (w\<lparr>stopwords_file := f\<rparr>) = lang_id_score_section c w"
  "perplexity_score_section c (w\<lparr>stopwords_file := f\<rparr>) = perplexity_score_section c w"
  by (simp_all add: fun_eq_iff number_words_section_def repetitions_ratio_section_def
      special_characters_ratio_section_def flagged_words_ratio_section_def
      lang_id_score_section_def perplexity_score_section_def)

lemma sections_ignore_flagged_words_file:
  "number_words_section c (w\<lparr>flagged_words_file := f\<rparr>) = number_words_section c w"
  "repetitions_ratio_section c (w\<lparr>flagged_words_file := f\<rparr>) = repetitions_ratio_section c w"
  "special_characters_ratio_section c (w\<lparr>flagged_words_file := f\<rparr>)
     = special_characters_ratio_section c w"
  "stopwords_ratio_section cfg c (w\<lparr>flagged_words_file := f\<rparr>) = stopwords_ratio_section cfg c w"
  "lang_id_score_section c (w\<lparr>flagged_words_file := f\<rparr>) = lang_id_score_section c w"
  "perplexity_score_section c (w\<lparr>flagged_words_file := f\<rparr>) = perplexity_score_section c w"
  by (simp_all add: fun_eq_iff number_words_section_def repetitions_ratio_section_def
      special_characters_ratio_section_def stopwords_ratio_section_def
      lang_id_score_section_def perplexity_score_section_def)

lemma stopwords_swap_section:
  assumes "stopwords_ratio_section cfg c w s = Inr r"
    and "stopwords_ratio_section cfg c (w\<lparr>stopwords_file := f\<rparr>) s = Inr r'"
  shows "agree_except ''stopwords_ratio'' r r'"
proof -
  have rw: "rewritten ''stopwords_ratio'' s
              (case u of None \<Rightarrow> s
               | Some t \<Rightarrow> recompute_column ''stopwords_ratio''
                    (\<lambda>text. compute_stopwords_ratio cfg text (set (py_split newline t))) s)" for u
    by (cases u) (simp_all add: rewritten_recompute_column)
  show ?thesis
    unfolding stopwords_ratio_section_shape[OF assms(1)] stopwords_ratio_section_shape[OF assms(2)]
    using agree_except_with_rules_same[OF rw[of "stopwords_file w"] rw[of f],
             of "[(''stopwords_ratio'', cutoff_stopwords_ratio w, False, None)]"]
    by simp
qed

lemma flagged_words_swap_section:
  assumes "flagged_words_ratio_section cfg c w s = Inr r"
    and "flagged_words_ratio_section cfg c (w\<lparr>flagged_words_file := f\<rparr>) s = Inr r'"
  shows "agree_except ''flagged_words_ratio'' r r'"
proof -
  have rw: "rewritten ''flagged_words_ratio'' s
              (case u of None \<Rightarrow> s
               | Some t \<Rightarrow> recompute_column ''flagged_words_ratio''
                    (\<lambda>text. compute_flagged_words_ratio cfg text (set (py_split newline t))) s)" for u
    by (cases u) (simp_all add: rewritten_recompute_column)
  show ?thesis
    unfolding flagged_words_ratio_section_shape[OF assms(1)]
      flagged_words_ratio_section_shape[OF assms(2)]
    using agree_except_with_rules_same[OF rw[of "flagged_words_file w"] rw[of f],
             of "[(''flagged_words_ratio'', cutoff_flagged_words_ratio w, True, None)]"]
    by simp
qed

lemma flagged_words_section_agree:
  assumes "agree_except ''stopwords_ratio'' s s'"
    and "flagged_words_ratio_section cfg c w s = Inr r"
    and "flagged_words_ratio_section cfg c w s' = Inr r'"
  shows "agree_except ''stopwords_ratio'' r r'"
  unfolding flagged_words_ratio_section_shape[OF assms(2)]
    flagged_words_ratio_section_shape[OF assms(3)]
  using assms(1)
  by (simp add: agree_except_with_rules_other agree_except_case_recompute)

lemma lang_id_score_section_agree:
  assumes "agree_except X s s'" and "X \<noteq> ''lang_id_score''"
    and "lang_id_score_section c w s = Inr r"
    and "lang_id_score_section c w s' = Inr r'"
  shows "agree_except X r r'"
  unfolding lang_id_score_section_shape[OF assms(3)] lang_id_score_section_shape[OF assms(4)]
  using assms(1,2) by (simp add: agree_except_with_rules_other)

lemma perplexity_score_section_agree:
  assumes "agree_except X s s'" and "X \<noteq> ''perplexity_score''"
    and "perplexity_score_section c w s = Inr r"
    and "perplexity_score_section c w s' = Inr r'"
  shows "agree_except X r r'"
  unfolding perplexity_score_section_shape[OF assms(3)] perplexity_score_section_shape[OF assms(4)]
  using assms(1,2) by (simp add: agree_except_with_rules_other)

lemma set_sliders_stopwords_swap:
  assumes "set_sliders cfg w s = Inr r"
    and "set_sliders cfg (w\<lparr>stopwords_file := f\<rparr>) s = Inr r'"
  shows "agree_except ''stopwords_ratio'' r r'"
proof -
  from assms(1) obtain s1 s2 s3 s4 s5 s6 where a:
    "number_words_section (\<lambda>c. in_columns c (frames s (docs s))) w
       (s\<lparr>keys := [], conds := [], captions := []\<rparr>) = Inr s1"
    "repetitions_ratio_section (\<lambda>c. in_columns c (frames s (docs s))) w s1 = Inr s2"
    "special_characters_ratio_section (\<lambda>c. in_columns c (frames s (docs s))) w s2 = Inr s3"
    "stopwords_ratio_section cfg (\<lambda>c. in_columns c (frames s (docs s))) w s3 = Inr s4"
    "flagged_words_ratio_section cfg (\<lambda>c. in_columns c (frames s (docs s))) w s4 = Inr s5"
    "lang_id_score_section (\<lambda>c. in_columns c (frames s (docs s))) w s5 = Inr s6"
    "perplexity_score_section (\<lambda>c. in_columns c (frames s (docs s))) w s6 = Inr r"
    by (rule set_sliders_Inr)
  from assms(2) obtain t1 t2 t3 t4 t5 t6 where b0:
    "number_words_section (\<lambda>c. in_columns c (frames s (docs s))) (w\<lparr>stopwords_file := f\<rparr>)
       (s\<lparr>keys := [], conds := [], captions := []\<rparr>) = Inr t1"
    "repetitions_ratio_section (\<lambda>c. in_columns c (frames s (docs s))) (w\<lparr>stopwords_file := f\<rparr>) t1 = Inr t2"
    "special_characters_ratio_section (\<lambda>c. in_columns c (frames s (docs s))) (w\<lparr>stopwords_file := f\<rparr>) t2 = Inr t3"
    "stopwords_ratio_section cfg (\<lambda>c. in_columns c (frames s (docs s))) (w\<lparr>stopwords_file := f\<rparr>) t3 = Inr t4"
    "flagged_words_ratio_section cfg (\<lambda>c. in_columns c (frames s (docs s))) (w\<lparr>stopwords_file := f\<rparr>) t4 = Inr t5"
    "lang_id_score_section (\<lambda>c. in_columns c (frames s (docs s))) (w\<lparr>stopwords_file := f\<rparr>) t5 = Inr t6"
    "perplexity_score_section (\<lambda>c. in_columns c (frames s (docs s))) (w\<lparr>stopwords_file := f\<rparr>) t6 = Inr r'"
    by (rule set_sliders_Inr)
  note b = b0[unfolded sections_ignore_stopwords_file]
  have "t1 = s1" using a(1) b(1) by simp
  then have "t2 = s2" using a(2) b(2) by simp
  then have "t3 = s3" using a(3) b(3) by simp
  then have 4: "agree_except ''stopwords_ratio'' s4 t4"
    using stopwords_swap_section[OF a(4)] b(4) by simp
  have 5: "agree_except ''stopwords_ratio'' s5 t5"
    using flagged_words_section_agree[OF 4 a(5) b(5)] .
  have 6: "agree_except ''stopwords_ratio'' s6 t6"
    using lang_id_score_section_agree[OF 5 _ a(6) b(6)] by simp
  show ?thesis
    using perplexity_score_section_agree[OF 6 _ a(7) b(7)] by simp
qed

lemma set_sliders_flagged_words_swap:
  assumes "set_sliders cfg w s = Inr r"
    and "set_sliders cfg (w\<lparr>flagged_words_file := f\<rparr>) s = Inr r'"
  shows "agree_except ''flagged_words_ratio'' r r'"
proof -
  from assms(1) obtain s1 s2 s3 s4 s5 s6 where a:
    "number_words_section (\<lambda>c. in_columns c (frames s (docs s))) w
       (s\<lparr>keys := [], conds := [], captions := []\<rparr>) = Inr s1"
    "repetitions_ratio_section (\<lambda>c. in_columns c (frames s (docs s))) w s1 = Inr s2"
    "special_characters_ratio_section (\<lambda>c. in_columns c (frames s (docs s))) w s2 = Inr s3"
    "stopwords_ratio_section cfg (\<lambda>c. in_columns c (frames s (docs s))) w s3 = Inr s4"
    "flagged_words_ratio_section cfg (\<lambda>c. in_columns c (frames s (docs s))) w s4 = Inr s5"
    "lang_id_score_section (\<lambda>c. in_columns c (frames s (docs s))) w s5 = Inr s6"
    "perplexity_score_section (\<lambda>c. in_columns c (frames s (docs s))) w s6 = Inr r"
    by (rule set_sliders_Inr)
  from assms(2) obtain t1 t2 t3 t4 t5 t6 where b0:
    "number_words_section (\<lambda>c. in_columns c (frames s (docs s))) (w\<lparr>flagged_words_file := f\<rparr>)
       (s\<lparr>keys := [], conds := [], captions := []\<rparr>) = Inr t1"
    "repetitions_ratio_section (\<lambda>c. in_columns c (frames s (docs s))) (w\<lparr>flagged_words_file := f\<rparr>) t1 = Inr t2"
    "special_characters_ratio_section (\<lambda>c. in_columns c (frames s (docs s))) (w\<lparr>flagged_words_file := f\<rparr>) t2 = Inr t3"
    "stopwords_ratio_section cfg (\<lambda>c. in_columns c (frames s (docs s))) (w\<lparr>flagged_words_file := f\<rparr>) t3 = Inr t4"
    "flagged_words_ratio_section cfg (\<lambda>c. in_columns c (frames s (docs s))) (w\<lparr>flagged_words_file := f\<rparr>) t4 = Inr t5"
    "lang_id_score_section (\<lambda>c. in_columns c (frames s (docs s))) (w\<lparr>flagged_words_file := f\<rparr>) t5 = Inr t6"
    "perplexity_score_section (\<lambda>c. in_columns c (frames s (docs s))) (w\<lparr>flagged_words_file := f\<rparr>) t6 = Inr r'"
    by (rule set_sliders_Inr)
  note b = b0[unfolded sections_ignore_flagged_words_file]
  have "t1 = s1" using a(1) b(1) by simp
  then have "t2 = s2" using a(2) b(2) by simp
  then have "t3 = s3" using a(3) b(3) by simp
  then have "t4 = s4" using a(4) b(4) by simp
  then have 5: "agree_except ''flagged_words_ratio'' s5 t5"
    using flagged_words_swap_section[OF a(5)] b(5) by simp
  have 6: "agree_except ''flagged_words_ratio'' s6 t6"
    using lang_id_score_section_agree[OF 5 _ a(6) b(6)] by simp
  show ?thesis
    using perplexity_score_section_agree[OF 6 _ a(7) b(7)] by simp
qed

lemma map_of_filter_fst:
  "X \<noteq> c \<Longrightarrow> map_of (filter (\<lambda>e. fst e \<noteq> c) xs) X = map_of xs X"
  by (induction xs) auto

lemma map_of_filter_key:
  "fst k \<noteq> c \<Longrightarrow> map_of (filter (\<lambda>e. fst (fst e) \<noteq> c) xs) k = map_of xs k"
  by (induction xs) auto

lemma agree_except_unchanged_outside:
  assumes a: "agree_except c s s'" and k: "self_keys s' = self_keys s"
  shows "unchanged_outside c s s'"
proof -
  have e: "erase_col c (frames s a) = erase_col c (frames s' a)" for a
    using a by (simp add: agree_except_def)
  have cs: "map_of (conds s') X = map_of (conds s) X" if "X \<noteq> c" for X
  proof -
    have "filter (\<lambda>e. fst e \<noteq> c) (conds s) = filter (\<lambda>e. fst e \<noteq> c) (conds s')"
      using a by (simp add: agree_except_def)
    then show ?thesis using map_of_filter_fst[OF that, of "conds s"]
        map_of_filter_fst[OF that, of "conds s'"] by simp
  qed
  have cp: "map_of (captions s') q = map_of (captions s) q" if "fst q \<noteq> c" for q
  proof -
    have "filter (\<lambda>e. fst (fst e) \<noteq> c) (captions s) = filter (\<lambda>e. fst (fst e) \<noteq> c) (captions s')"
      using a by (simp add: agree_except_def)
    then show ?thesis using map_of_filter_key[OF that, of "captions s"]
        map_of_filter_key[OF that, of "captions s'"] by simp
  qed
  show ?thesis
    unfolding unchanged_outside_def
    using a k cs cp erase_col_eq_nth[OF e]
    by (simp add: agree_except_def)
qed

lemma filtering_of_docs_after:
  assumes "filtering_of_docs cfg w s = Inr r"
  obtains s' where "set_sliders cfg w s = Inr s'" "after r = s'\<lparr>self_keys := keys s'\<rparr>"
  using assms by (rule filtering_of_docs_Inr)

lemma agree_except_self_keys:
  "agree_except c s s' \<Longrightarrow>
   agree_except c (s\<lparr>self_keys := keys s\<rparr>) (s'\<lparr>self_keys := keys s'\<rparr>)"
  by (simp add: agree_except_def)

lemma recomputed_recompute_column: "recomputed c f (recompute_column c f s)"
proof -
  have "stats d c = Some (Num (f (doc_text d)))"
    if "d \<in> set (map (\<lambda>d. set_cell c (Some (Num (f (doc_text d)))) d) df)" for d df
    using that by (auto simp: set_cell_def)
  then show ?thesis
    by (simp add: recomputed_def recompute_column_def restore_column_def write_docs_def Let_def)
qed

lemma recomputed_with_rules: "recomputed c f (with_rules X ks s) = recomputed c f s"
  by (simp add: recomputed_def with_rules_def)

lemma recomputed_step:
  assumes st: "section_step X s s'" and X: "X \<noteq> c" and r: "recomputed c f s"
  shows "recomputed c f s'"
proof -
  have d: "docs s' = docs s" and e: "erase_col X (frames s' (docs s)) = erase_col X (frames s (docs s))"
    using section_step_frame(1,3)[OF st] by simp_all
  have "stats d c = Some (Num (f (doc_text d)))" if "d \<in> set (frames s' (docs s))" for d
  proof -
    from that obtain i where i: "i < length (frames s' (docs s))" "d = frames s' (docs s) ! i"
      by (auto simp: in_set_conv_nth)
    have l: "length (frames s' (docs s)) = length (frames s (docs s))"
      using erase_col_eq_nth(1)[OF e] .
    have "stats d c = stats (frames s (docs s) ! i) c"
      and "doc_text d = doc_text (frames s (docs s) ! i)"
      using erase_col_eq_nth(2,3)[OF e i(1)] X i(2) by auto
    moreover have "frames s (docs s) ! i \<in> set (frames s (docs s))" using i(1) l by simp
    ultimately show ?thesis using r by (simp add: recomputed_def)
  qed
  then show ?thesis by (simp add: recomputed_def d)
qed

lemma set_sliders_stopwords_recomputed:
  assumes "set_sliders cfg w s = Inr r" and "stopwords_file w = Some t"
    and "in_columns ''stopwords_ratio'' (frames s (docs s))"
  shows "recomputed ''stopwords_ratio''
           (\<lambda>text. compute_stopwords_ratio cfg text (set (py_split newline t))) r"
proof -
  from assms(1) obtain s1 s2 s3 s4 s5 s6 where a:
    "number_words_section (\<lambda>c. in_columns c (frames s (docs s))) w
       (s\<lparr>keys := [], conds := [], captions := []\<rparr>) = Inr s1"
    "repetitions_ratio_section (\<lambda>c. in_columns c (frames s (docs s))) w s1 = Inr s2"
    "special_characters_ratio_section (\<lambda>c. in_columns c (frames s (docs s))) w s2 = Inr s3"
    "stopwords_ratio_section cfg (\<lambda>c. in_columns c (frames s (docs s))) w s3 = Inr s4"
    "flagged_words_ratio_section cfg (\<lambda>c. in_columns c (frames s (docs s))) w s4 = Inr s5"
    "lang_id_score_section (\<lambda>c. in_columns c (frames s (docs s))) w s5 = Inr s6"
    "perplexity_score_section (\<lambda>c. in_columns c (frames s (docs s))) w s6 = Inr r"
    by (rule set_sliders_Inr)
  let ?f = "\<lambda>text. compute_stopwords_ratio cfg text (set (py_split newline t))"
  have 4: "recomputed ''stopwords_ratio'' ?f s4"
    unfolding stopwords_ratio_section_shape[OF a(4)] using assms(2,3)
    by (simp add: recomputed_with_rules recomputed_recompute_column)
  have 5: "recomputed ''stopwords_ratio'' ?f s5"
    using recomputed_step[OF flagged_words_ratio_section_step[OF a(5)] _ 4] by simp
  have 6: "recomputed ''stopwords_ratio'' ?f s6"
    using recomputed_step[OF lang_id_score_section_step[OF a(6)] _ 5] by simp
  show ?thesis
    using recomputed_step[OF perplexity_score_section_step[OF a(7)] _ 6] by simp
qed

lemma set_sliders_flagged_words_recomputed:
  assumes "set_sliders cfg w s = Inr r" and "flagged_words_file w = Some t"
    and "in_columns ''flagged_words_ratio'' (frames s (docs s))"
  shows "recomputed ''flagged_words_ratio''
           (\<lambda>text. compute_flagged_words_ratio cfg text (set (py_split newline t))) r"
proof -
  from assms(1) obtain s1 s2 s3 s4 s5 s6 where a:
    "number_words_section (\<lambda>c. in_columns c (frames s (docs s))) w
       (s\<lparr>keys := [], conds := [], captions := []\<rparr>) = Inr s1"
    "repetitions_ratio_section (\<lambda>c. in_columns c (frames s (docs s))) w s1 = Inr s2"
    "special_characters_ratio_section (\<lambda>c. in_columns c (frames s (docs s))) w s2 = Inr s3"
    "stopwords_ratio_section cfg (\<lambda>c. in_columns c (frames s (docs s))) w s3 = Inr s4"
    "flagged_words_ratio_section cfg (\<lambda>c. in_columns c (frames s (docs s))) w s4 = Inr s5"
    "lang_id_score_section (\<lambda>c. in_columns c (frames s (docs s))) w s5 = Inr s6"
    "perplexity_score_section (\<lambda>c. in_columns c (frames s (docs s))) w s6 = Inr r"
    by (rule set_sliders_Inr)
  let ?f = "\<lambda>text. compute_flagged_words_ratio cfg text (set (py_split newline t))"
  have 5: "recomputed ''flagged_words_ratio'' ?f s5"
    unfolding flagged_words_ratio_section_shape[OF a(5)] using assms(2,3)
    by (simp add: recomputed_with_rules recomputed_recompute_column)
  have 6: "recomputed ''flagged_words_ratio'' ?f s6"
    using recomputed_step[OF lang_id_score_section_step[OF a(6)] _ 5] by simp
  show ?thesis
    using recomputed_step[OF perplexity_score_section_step[OF a(7)] _ 6] by simp
qed

text \<open>
  Claim C9. Take a run of \<open>filtering_of_docs\<close> and the run from the same state with the same
  sidebar but for an uploaded list of stop words (of flagged words), both returning. After
  the second, every document of the frame has as its stop words ratio (flagged words ratio)
  the ratio computed from its text and the uploaded list, when the data has this column;
  and the two runs end with the same keys, the same text and the same cell in every other
  column for every document of every frame, the same conditions for every other column and
  the same captions for every rule on another column.
\<close>

theorem lexicon_swap_frame:
  assumes "filtering_of_docs cfg w s = Inr r"
  shows "(filtering_of_docs cfg (w\<lparr>stopwords_file := Some t\<rparr>) s = Inr r' \<longrightarrow>
            unchanged_outside ''stopwords_ratio'' (after r) (after r')
          \<and> (in_columns ''stopwords_ratio'' (frames s (docs s)) \<longrightarrow>
               recomputed ''stopwords_ratio''
                 (\<lambda>text. compute_stopwords_ratio cfg text (set (py_split newline t))) (after r')))
       \<and> (filtering_of_docs cfg (w\<lparr>flagged_words_file := Some t\<rparr>) s = Inr r' \<longrightarrow>
            unchanged_outside ''flagged_words_ratio'' (after r) (after r')
          \<and> (in_columns ''flagged_words_ratio'' (frames s (docs s)) \<longrightarrow>
               recomputed ''flagged_words_ratio''
                 (\<lambda>text. compute_flagged_words_ratio cfg text (set (py_split newline t))) (after r')))"
proof -
  from assms obtain s1 where
    s1: "set_sliders cfg w s = Inr s1" and a1: "after r = s1\<lparr>self_keys := keys s1\<rparr>"
    by (rule filtering_of_docs_after)
  have sw: "unchanged_outside ''stopwords_ratio'' (after r) (after r')
          \<and> (in_columns ''stopwords_ratio'' (frames s (docs s)) \<longrightarrow>
               recomputed ''stopwords_ratio''
                 (\<lambda>text. compute_stopwords_ratio cfg text (set (py_split newline t))) (after r'))"
    if h: "filtering_of_docs cfg (w\<lparr>stopwords_file := Some t\<rparr>) s = Inr r'"
  proof -
    from h obtain s2 where
      s2: "set_sliders cfg (w\<lparr>stopwords_file := Some t\<rparr>) s = Inr s2"
      and a2: "after r' = s2\<lparr>self_keys := keys s2\<rparr>"
      by (rule filtering_of_docs_after)
    have ag: "agree_except ''stopwords_ratio'' s1 s2"
      using set_sliders_stopwords_swap[OF s1 s2] .
    have u: "unchanged_outside ''stopwords_ratio'' (after r) (after r')"
      unfolding a1 a2
      by (rule agree_except_unchanged_outside[OF agree_except_self_keys[OF ag]])
         (use ag in \<open>simp add: agree_except_def\<close>)
    have "recomputed ''stopwords_ratio''
            (\<lambda>text. compute_stopwords_ratio cfg text (set (py_split newline t))) s2"
      if "in_columns ''stopwords_ratio'' (frames s (docs s))"
      using set_sliders_stopwords_recomputed[OF s2 _ that] by simp
    then show ?thesis using u by (simp add: a2 recomputed_def)
  qed
  have fw: "unchanged_outside ''flagged_words_ratio'' (after r) (after r')
          \<and> (in_columns ''flagged_words_ratio'' (frames s (docs s)) \<longrightarrow>
               recomputed ''flagged_words_ratio''
                 (\<lambda>text. compute_flagged_words_ratio cfg text (set (py_split newline t))) (after r'))"
    if h: "filtering_of_docs cfg (w\<lparr>flagged_words_file := Some t\<rparr>) s = Inr r'"
  proof -
    from h obtain s2 where
      s2: "set_sliders cfg (w\<lparr>flagged_words_file := Some t\<rparr>) s = Inr s2"
      and a2: "after r' = s2\<lparr>self_keys := keys s2\<rparr>"
      by (rule filtering_of_docs_after)
    have ag: "agree_except ''flagged_words_ratio'' s1 s2"
      using set_sliders_flagged_words_swap[OF s1 s2] .
    have u: "unchanged_outside ''flagged_words_ratio'' (after r) (after r')"
      unfolding a1 a2
      by (rule agree_except_unchanged_outside[OF agree_except_self_keys[OF ag]])
         (use ag in \<open>simp add: agree_except_def\<close>)
    have "recomputed ''flagged_words_ratio''
            (\<lambda>text. compute_flagged_words_ratio cfg text (set (py_split newline t))) s2"
      if "in_columns ''flagged_words_ratio'' (frames s (docs s))"
      using set_sliders_flagged_words_recomputed[OF s2 _ that] by simp
    then show ?thesis using u by (simp add: a2 recomputed_def)
  qed
  show ?thesis using sw fw by blast
qed

lemma example_run_stopwords:
  "filtering_of_docs example_config (example_widgets\<lparr>stopwords_file := Some ''the''\<rparr>) example_state
     = Inr example_result_stopwords"
  by (simp add: example_result_stopwords_def run_defs)

lemma example_run_flagged_words:
  "filtering_of_docs example_config (example_widgets\<lparr>flagged_words_file := Some ''cat''\<rparr>) example_state
     = Inr example_result_flagged_words"
  by (simp add: example_result_flagged_words_def run_defs)

lemma example_stopwords_column:
  "column ''stopwords_ratio'' (frames (after example_result_stopwords) (docs (after example_result_stopwords)))
     = [Some (Num (2 / 3)), Some (Num (1 / 12))]"
  by (simp add: example_result_stopwords_def run_defs)

lemma example_flagged_words_column:
  "column ''flagged_words_ratio'' (frames (after example_result_flagged_words) (docs (after example_result_flagged_words)))
     = [Some (Num (1 / 3)), Some (Num 0)]"
  by (simp add: example_result_flagged_words_def run_defs)

lemma example_in_columns:
  "in_columns ''stopwords_ratio'' (frames example_state (docs example_state))"
  "in_columns ''flagged_words_ratio'' (frames example_state (docs example_state))"
  by (simp_all add: run_defs)

text \<open>
  Claim C9, on the small data set: after the upload of the stop words \<open>the\<close> the text
  \<open>the the cat\<close> has the stop words ratio 2/3; after the upload of the flagged words \<open>cat\<close> it
  has the flagged words ratio 1/3; nothing else differs from the run without upload.
\<close>

theorem lexicon_swap_frame_witness:
  "filtering_of_docs example_config example_widgets example_state = Inr example_result
   \<and> filtering_of_docs example_config (example_widgets\<lparr>stopwords_file := Some ''the''\<rparr>) example_state
       = Inr example_result_stopwords
   \<and> filtering_of_docs example_config (example_widgets\<lparr>flagged_words_file := Some ''cat''\<rparr>) example_state
       = Inr example_result_flagged_words
   \<and> in_columns ''stopwords_ratio'' (frames example_state (docs example_state))
   \<and> in_columns ''flagged_words_ratio'' (frames example_state (docs example_state))
   \<and> unchanged_outside ''stopwords_ratio'' (after example_result) (after example_result_stopwords)
   \<and> unchanged_outside ''flagged_words_ratio'' (after example_result) (after example_result_flagged_words)
   \<and> column ''stopwords_ratio'' (frames (after example_result_stopwords) (docs (after example_result_stopwords)))
       = [Some (Num (2 / 3)), Some (Num (1 / 12))]
   \<and> column ''flagged_words_ratio'' (frames (after example_result_flagged_words) (docs (after example_result_flagged_words)))
       = [Some (Num (1 / 3)), Some (Num 0)]"
proof -
  have 1: "unchanged_outside ''stopwords_ratio'' (after example_result) (after example_result_stopwords)"
    by (rule lexicon_swap_frame[OF example_run, of "''the''" example_result_stopwords,
                THEN conjunct1, THEN mp, OF example_run_stopwords, THEN conjunct1])
  have 2: "unchanged_outside ''flagged_words_ratio'' (after example_result) (after example_result_flagged_words)"
    by (rule lexicon_swap_frame[OF example_run, of "''cat''" example_result_flagged_words,
                THEN conjunct2, THEN mp, OF example_run_flagged_words, THEN conjunct1])
  show ?thesis
    by (intro conjI example_run example_run_stopwords example_run_flagged_words example_in_columns
          1 2 example_stopwords_column example_flagged_words_column)
qed

lemmas probe_defs = analyse_personal_doc_def probe_key_def is_doc_discarded_def discard_if_def
  round3_def probe_state_def probe_state_lang_only_def low_score_config_def example_config_def
  example_state_def ratio_in_def Let_def

text \<open>
  Claim C1, which the code does not meet. With the rules "flagged words ratio at most 1" and
  "language score at least 0.8" and the predicted language equal to the target language: a
  text whose language score is 0.9 and whose flagged words ratio is 0 is discarded, and a
  text whose language score is 0.1 and whose flagged words ratio is 1 is not. The branch of
  the language score compares the flagged words ratio, not the score, with the cutoff. When
  no rule on the flagged words ratio precedes, the variable is unbound and the probe ends in
  an error.
\<close>

theorem lang_id_rule_reads_flagged_words_ratio:
  "compute_lang_id_pred_score example_config ''the cat'' = (lang_dataset_id example_config, 9 / 10)
   \<and> \<not> round3 (9 / 10) < 4 / 5
   \<and> analyse_personal_doc example_config probe_state ''the cat'' = Inr (Some True)
   \<and> compute_lang_id_pred_score low_score_config ''the cat'' = (lang_dataset_id low_score_config, 1 / 10)
   \<and> round3 (1 / 10) < 4 / 5
   \<and> analyse_personal_doc low_score_config probe_state ''the cat'' = Inr (Some False)
   \<and> analyse_personal_doc example_config probe_state_lang_only ''the cat'' = Inl UnboundLocalError"
  by (simp add: probe_defs)










end
